theory Spec2Isabelle
  imports Main "HOL-Library.Sublist"
begin

section \<open>JavaScript primitives used by vsixeditor.ts\<close>

text \<open>
  The session fields are declared \<open>string = null\<close>: a field is either \<open>null\<close> or a string.
  They are tested by truthiness (\<open>if (this.versionNumber)\<close>, \<open>a || b\<close>, \<open>a && b\<close>), under
  which \<open>null\<close>, the empty string and \<open>false\<close> are falsy and everything else is truthy.
  \<open>a || b\<close> is \<open>a\<close> when \<open>a\<close> is truthy and \<open>b\<close> otherwise; \<open>a && b\<close> is \<open>b\<close> when \<open>a\<close> is
  truthy and \<open>a\<close> otherwise.
\<close>

datatype jsval = JNull | JStr string | JBool bool

fun truthy :: "jsval \<Rightarrow> bool" where
  "truthy JNull = False"
| "truthy (JStr s) = (s \<noteq> [])"
| "truthy (JBool b) = b"

definition js_or :: "jsval \<Rightarrow> jsval \<Rightarrow> jsval" where
  "js_or a b = (if truthy a then a else b)"

definition js_and :: "jsval \<Rightarrow> jsval \<Rightarrow> jsval" where
  "js_and a b = (if truthy a then b else a)"

text \<open>A nullable string field read as a JavaScript value.\<close>

definition field :: "string option \<Rightarrow> jsval" where
  "field f = (case f of None \<Rightarrow> JNull | Some s \<Rightarrow> JStr s)"

text \<open>\<open>a !== b\<close> on JavaScript values (strict inequality, no coercion).\<close>

definition strict_neq :: "jsval \<Rightarrow> jsval \<Rightarrow> jsval" where
  "strict_neq a b = JBool (a \<noteq> b)"

text \<open>\<open>s.split(" ")\<close>: the pieces between single spaces, empty pieces included.\<close>

fun split_space :: "string \<Rightarrow> string list" where
  "split_space [] = [[]]"
| "split_space (c # cs) =
     (if c = CHR '' '' then [] # split_space cs
      else (c # hd (split_space cs)) # tl (split_space cs))"

text \<open>\<open>xs.join(" ")\<close>.\<close>

fun join_space :: "string list \<Rightarrow> string" where
  "join_space [] = []"
| "join_space [w] = w"
| "join_space (w # v # ws) = w @ CHR '' '' # join_space (v # ws)"

text \<open>\<open>Array.prototype.indexOf\<close>: the first index holding the element, or \<open>-1\<close>.\<close>

fun indexOf :: "'a list \<Rightarrow> 'a \<Rightarrow> int" where
  "indexOf [] x = - 1"
| "indexOf (y # ys) x =
     (if y = x then 0 else (let i = indexOf ys x in if i < 0 then - 1 else i + 1))"

text \<open>\<open>xs.splice(index, 1)\<close> for an index inside the array: the element there is deleted.\<close>

definition splice1 :: "'a list \<Rightarrow> nat \<Rightarrow> 'a list" where
  "splice1 xs i = take i xs @ drop (Suc i) xs"

text \<open>\<open>String.prototype.indexOf\<close>: the first position where the needle starts, or \<open>-1\<close>.\<close>

definition starts_with :: "string \<Rightarrow> string \<Rightarrow> bool" where
  "starts_with s n = (take (length n) s = n)"

fun str_indexOf :: "string \<Rightarrow> string \<Rightarrow> int" where
  "str_indexOf [] n = (if n = [] then 0 else - 1)"
| "str_indexOf (c # cs) n =
     (if starts_with (c # cs) n then 0
      else (let i = str_indexOf cs n in if i < 0 then - 1 else i + 1))"

section \<open>GalleryFlagsEditor\<close>

text \<open>
  The editor's state is its \<open>flags\<close> array. The constructor splits a truthy argument at
  spaces and drops the empty pieces; a falsy argument leaves the initial empty array.
\<close>

definition GalleryFlagsEditor :: "string \<Rightarrow> string list" where
  "GalleryFlagsEditor galleryFlagsEditor =
     (if galleryFlagsEditor \<noteq> [] then filter (\<lambda>f. f \<noteq> []) (split_space galleryFlagsEditor)
      else [])"

definition addFlag :: "string list \<Rightarrow> string \<Rightarrow> string list" where
  "addFlag flags flag = (if indexOf flags flag < 0 then flags @ [flag] else flags)"

definition removeFlag :: "string list \<Rightarrow> string \<Rightarrow> string list" where
  "removeFlag flags flag =
     (let index = indexOf flags flag
      in if index \<ge> 0 then splice1 flags (nat index) else flags)"

definition addPublicFlag :: "string list \<Rightarrow> string list" where
  "addPublicFlag flags = addFlag flags ''Public''"

definition removePublicFlag :: "string list \<Rightarrow> string list" where
  "removePublicFlag flags = removeFlag flags ''Public''"

definition removePaidFlag :: "string list \<Rightarrow> string list" where
  "removePaidFlag flags = removeFlag flags ''Paid''"

definition addPaidFlag :: "string list \<Rightarrow> string list" where
  "addPaidFlag flags = addFlag flags ''Paid''"

definition addPreviewFlag :: "string list \<Rightarrow> string list" where
  "addPreviewFlag flags = addFlag flags ''Preview''"

definition removePreviewFlag :: "string list \<Rightarrow> string list" where
  "removePreviewFlag flags = removeFlag flags ''Preview''"

definition toString :: "string list \<Rightarrow> string" where
  "toString flags = join_space flags"

text \<open>
  A well-formed space-delimited string: empty, or tokens that are each non-empty, with
  exactly one space between neighbours (no leading, trailing or doubled space).
\<close>

fun no_blank_token :: "string \<Rightarrow> bool" where
  "no_blank_token [] = False"
| "no_blank_token [c] = (c \<noteq> CHR '' '')"
| "no_blank_token (c # d # cs) =
     (c \<noteq> CHR '' '' \<and> (if d = CHR '' '' then no_blank_token cs else no_blank_token (d # cs)))"

definition well_formed :: "string \<Rightarrow> bool" where
  "well_formed g = (g = [] \<or> no_blank_token g)"

text \<open>Token lists that survive \<open>toString\<close> and a new constructor: no empty token, no space.\<close>

definition clean_tokens :: "string list \<Rightarrow> bool" where
  "clean_tokens ts = list_all (\<lambda>t. t \<noteq> [] \<and> CHR '' '' \<notin> set t) ts"


text \<open>\<open>n.toString()\<close> for a non-negative integer, and \<open>s.padStart(2, "0")\<close>.\<close>

definition digit_char :: "nat \<Rightarrow> char" where
  "digit_char d = ''0123456789'' ! d"

fun nat_toString :: "nat \<Rightarrow> string" where
  "nat_toString n =
     (if n < 10 then [digit_char n] else nat_toString (n div 10) @ [digit_char (n mod 10)])"

declare nat_toString.simps [simp del]

definition padStart2 :: "string \<Rightarrow> string" where
  "padStart2 s = replicate (2 - length s) (CHR ''0'') @ s"

section \<open>The manifest and the session\<close>

text \<open>
  \<open>VsixManifest\<close>: the parsed \<open>extension.vsixmanifest\<close>. The source reaches the five values
  through \<open>PackageManifest.Metadata\<close> (\<open>Identity._Id\<close>, \<open>Identity._Version\<close>,
  \<open>Identity._Publisher\<close>, \<open>DisplayName\<close>, \<open>GalleryFlags\<close>); the record holds them flat.
\<close>

record VsixManifest =
  Identity_Id :: string
  Identity_Version :: string
  Identity_Publisher :: string
  DisplayName :: string
  GalleryFlags :: string

record ManifestData =
  md_version :: string
  md_id :: string
  md_publisher :: string
  md_visibility :: "string option"
  md_pricing :: "string option"
  md_name :: string
  md_dirPath :: string
  outputFileName :: "string option"

text \<open>
  \<open>VSIXEditor\<close>: the session. The field \<open>id\<close> of the source is \<open>ext_id\<close> here.
  \<open>new_VSIXEditor\<close> is the constructor together with the field initialisers.
\<close>

record VSIXEditor =
  edit :: bool
  versionNumber :: "string option"
  ext_id :: "string option"
  idTag :: "string option"
  publisher :: "string option"
  extensionName :: "string option"
  extensionVisibility :: "string option"
  extensionPricing :: "string option"
  updateTasksVersion :: bool
  updateTasksId :: bool
  inputFile :: string
  outputPath :: string

definition new_VSIXEditor :: "string \<Rightarrow> string \<Rightarrow> VSIXEditor" where
  "new_VSIXEditor inFile outPath =
     \<lparr>edit = False, versionNumber = None, ext_id = None, idTag = None, publisher = None,
      extensionName = None, extensionVisibility = None, extensionPricing = None,
      updateTasksVersion = True, updateTasksId = True,
      inputFile = inFile, outputPath = outPath\<rparr>"

text \<open>\<open>throw new Error(message)\<close>, and the failures of the external collaborators.\<close>

datatype error = Error string

definition validateEditMode :: "VSIXEditor \<Rightarrow> error + unit" where
  "validateEditMode s = (if \<not> edit s then Inl (Error ''Editing is not started'') else Inr ())"

definition startEdit :: "VSIXEditor \<Rightarrow> error + VSIXEditor" where
  "startEdit s =
     (if edit s then Inl (Error ''Edit is already started'') else Inr (s\<lparr>edit := True\<rparr>))"

definition guarded :: "VSIXEditor \<Rightarrow> VSIXEditor \<Rightarrow> error + VSIXEditor" where
  "guarded s s' = (case validateEditMode s of Inl e \<Rightarrow> Inl e | Inr _ \<Rightarrow> Inr s')"

definition editVersion :: "string option \<Rightarrow> VSIXEditor \<Rightarrow> error + VSIXEditor" where
  "editVersion version s = guarded s (s\<lparr>versionNumber := version\<rparr>)"

definition editExtensionName :: "string option \<Rightarrow> VSIXEditor \<Rightarrow> error + VSIXEditor" where
  "editExtensionName name s = guarded s (s\<lparr>extensionName := name\<rparr>)"

definition editExtensionVisibility :: "string option \<Rightarrow> VSIXEditor \<Rightarrow> error + VSIXEditor" where
  "editExtensionVisibility visibility s = guarded s (s\<lparr>extensionVisibility := visibility\<rparr>)"

definition editExtensionPricing :: "string option \<Rightarrow> VSIXEditor \<Rightarrow> error + VSIXEditor" where
  "editExtensionPricing pricing s = guarded s (s\<lparr>extensionPricing := pricing\<rparr>)"

definition editId :: "string option \<Rightarrow> VSIXEditor \<Rightarrow> error + VSIXEditor" where
  "editId i s = guarded s (s\<lparr>ext_id := i\<rparr>)"

definition editIdTag :: "string option \<Rightarrow> VSIXEditor \<Rightarrow> error + VSIXEditor" where
  "editIdTag tag s = guarded s (s\<lparr>idTag := tag\<rparr>)"

definition editPublisher :: "string option \<Rightarrow> VSIXEditor \<Rightarrow> error + VSIXEditor" where
  "editPublisher p s = guarded s (s\<lparr>publisher := p\<rparr>)"

definition editUpdateTasksVersion :: "bool \<Rightarrow> VSIXEditor \<Rightarrow> error + VSIXEditor" where
  "editUpdateTasksVersion b s = guarded s (s\<lparr>updateTasksVersion := b\<rparr>)"

definition editUpdateTasksId :: "bool \<Rightarrow> VSIXEditor \<Rightarrow> error + VSIXEditor" where
  "editUpdateTasksId b s = guarded s (s\<lparr>updateTasksId := b\<rparr>)"

text \<open>
  \<open>hasEdits\<close> returns the value of the \<open>||\<close> chain: a truthy operand (possibly a string),
  or the last operand \<open>this.updateTasksId\<close>. Callers test it by truthiness.
\<close>

definition not_default :: "string option \<Rightarrow> jsval" where
  "not_default f = js_and (field f) (strict_neq (field f) (JStr ''default''))"

definition hasEdits :: "VSIXEditor \<Rightarrow> jsval" where
  "hasEdits s =
     js_or
       (js_or (js_or (js_or (js_or (js_or (js_or
          (field (versionNumber s))
          (field (ext_id s)))
          (field (idTag s)))
          (field (publisher s)))
          (field (extensionName s)))
          (not_default (extensionVisibility s)))
          (not_default (extensionPricing s)))
       (JBool (updateTasksId s))"

section \<open>Patching the manifest\<close>

text \<open>
  The visibility block and the pricing block of \<open>editVsixManifest\<close>. Each constructs an
  editor from the current \<open>GalleryFlags\<close> text, calls the editor's methods according to
  the request (\<open>applyVisibility\<close>, \<open>applyPricing\<close>) and writes \<open>toString()\<close> back.
\<close>

definition applyVisibility :: "string \<Rightarrow> string list \<Rightarrow> string list" where
  "applyVisibility visibility flagsEditor =
     (let isPublic = (str_indexOf visibility ''public'' \<ge> 0);
          isPreview = (str_indexOf visibility ''preview'' \<ge> 0);
          flagsEditor1 = (if isPublic then addPublicFlag flagsEditor
                          else removePublicFlag flagsEditor)
      in if isPreview then addPreviewFlag flagsEditor1 else removePreviewFlag flagsEditor1)"

definition editVisibilityFlags :: "string \<Rightarrow> string \<Rightarrow> string" where
  "editVisibilityFlags visibility galleryFlags =
     toString (applyVisibility visibility (GalleryFlagsEditor galleryFlags))"

definition applyPricing :: "string \<Rightarrow> string list \<Rightarrow> string list" where
  "applyPricing pricing flagsEditor =
     (let isFree = (str_indexOf pricing ''free'' \<ge> 0);
          isPaid = (str_indexOf pricing ''paid'' \<ge> 0);
          flagsEditor1 = (if isFree then removePaidFlag flagsEditor else flagsEditor)
      in if isPaid then addPaidFlag flagsEditor1 else flagsEditor1)"

definition editPricingFlags :: "string \<Rightarrow> string \<Rightarrow> string" where
  "editPricingFlags pricing galleryFlags =
     toString (applyPricing pricing (GalleryFlagsEditor galleryFlags))"

text \<open>
  \<open>if (this.f) { ... this.f ... }\<close>: the update runs with the field's string when the field
  is truthy, that is, neither \<open>null\<close> nor empty.
\<close>

definition when_set :: "string option \<Rightarrow> (string \<Rightarrow> 'a \<Rightarrow> 'a) \<Rightarrow> 'a \<Rightarrow> 'a" where
  "when_set f upd x = (case f of None \<Rightarrow> x | Some v \<Rightarrow> if truthy (JStr v) then upd v x else x)"

text \<open>\<open>if (this.f && this.f !== "default") { ... this.f ... }\<close>.\<close>

definition when_not_default :: "string option \<Rightarrow> (string \<Rightarrow> 'a \<Rightarrow> 'a) \<Rightarrow> 'a \<Rightarrow> 'a" where
  "when_not_default f upd x =
     (case f of None \<Rightarrow> x | Some v \<Rightarrow> if truthy (not_default (Some v)) then upd v x else x)"

text \<open>
  Lines 236 to 278 of \<open>editVsixManifest\<close>: the edits applied to the parsed manifest, in the
  order of the source (\<open>identity\<close> aliases the manifest's Identity node).
\<close>

definition patchManifest :: "VSIXEditor \<Rightarrow> VsixManifest \<Rightarrow> VsixManifest" where
  "patchManifest s m =
     (let m1 = when_set (versionNumber s) (\<lambda>v x. x\<lparr>Identity_Version := v\<rparr>) m;
          m2 = when_set (ext_id s) (\<lambda>v x. x\<lparr>Identity_Id := v\<rparr>) m1;
          m3 = when_set (idTag s) (\<lambda>v x. x\<lparr>Identity_Id := Identity_Id x @ v\<rparr>) m2;
          m4 = when_set (publisher s) (\<lambda>v x. x\<lparr>Identity_Publisher := v\<rparr>) m3;
          m5 = when_set (extensionName s) (\<lambda>v x. x\<lparr>DisplayName := v\<rparr>) m4;
          m6 = when_not_default (extensionVisibility s)
                 (\<lambda>v x. x\<lparr>GalleryFlags := editVisibilityFlags v (GalleryFlags x)\<rparr>) m5;
          m7 = when_not_default (extensionPricing s)
                 (\<lambda>v x. x\<lparr>GalleryFlags := editPricingFlags v (GalleryFlags x)\<rparr>) m6
      in m7)"


section \<open>The outside world\<close>

text \<open>
  What the session does to the outside is a state \<open>world\<close>: the process's working
  directory and the trace of the calls that create, change or run something (temporary
  directories, files, the working directory, child processes, the nested task-manifest
  update). \<open>tl.debug\<close> output is not part of it.
\<close>

datatype event =
    TempTrack
  | TempMkdir string
  | Cd string
  | Cp string string string
  | ExecSync string "string list"
  | CheckUpdateTasksManifests string
  | WriteFile string string

record world =
  cwd :: string
  trace :: "event list"

text \<open>
  The collaborators that are not part of this file (\<open>azure-pipelines-task-lib\<close>, \<open>temp\<close>,
  \<open>fs\<close>, \<open>fs-extra\<close>, \<open>path\<close>, \<open>x2js\<close>, \<open>7zip-bin\<close>, \<open>Common.checkUpdateTasksManifests\<close>) are
  parameters: what each call answers, and whether it throws (\<open>Some e\<close>, \<open>Inl e\<close>).
  \<open>ToolRunner.execSync\<close> does not throw when the tool fails: it returns a result that
  carries the exit code, which the source ignores. \<open>execSync\<close> is asked with the tool, its
  arguments and the working directory of the call, and answers the exit code.
\<close>

datatype platform = Windows | MacOS | Linux

record env =
  getPlatform :: platform
  import_7zip :: "error option"
  default_path7za :: string
  module_path7za :: string
  import_x2js :: "error option"
  which :: "string \<Rightarrow> error + string"
  execSync :: "string \<Rightarrow> string list \<Rightarrow> string \<Rightarrow> int"
  cd :: "string \<Rightarrow> error option"
  cp :: "string \<Rightarrow> string \<Rightarrow> error option"
  mkdir :: "string \<Rightarrow> error + string"
  checkUpdateTasksManifests :: "string \<Rightarrow> error option"
  readFile :: "string \<Rightarrow> error + string"
  xml2js :: "string \<Rightarrow> error + VsixManifest"
  js2xml :: "VsixManifest \<Rightarrow> string"
  writeFile :: "string \<Rightarrow> string \<Rightarrow> error option"
  path_join :: "string \<Rightarrow> string \<Rightarrow> string"
  fs_exists :: "string \<Rightarrow> bool"

text \<open>
  A computation on the world either returns a value or throws; both leave a world behind.
\<close>

type_synonym 'a io = "world \<Rightarrow> (error + 'a) \<times> world"

definition ret :: "'a \<Rightarrow> 'a io" where
  "ret x = (\<lambda>w. (Inr x, w))"

definition throw :: "error \<Rightarrow> 'a io" where
  "throw e = (\<lambda>w. (Inl e, w))"

definition io_bind :: "'a io \<Rightarrow> ('a \<Rightarrow> 'b io) \<Rightarrow> 'b io" where
  "io_bind m f = (\<lambda>w. case m w of (Inl e, w') \<Rightarrow> (Inl e, w') | (Inr x, w') \<Rightarrow> f x w')"

definition io_then :: "'a io \<Rightarrow> 'b io \<Rightarrow> 'b io" where
  "io_then m k = io_bind m (\<lambda>_. k)"

definition emit :: "event \<Rightarrow> unit io" where
  "emit ev = (\<lambda>w. (Inr (), w\<lparr>trace := trace w @ [ev]\<rparr>))"

definition may_throw :: "error option \<Rightarrow> unit io" where
  "may_throw r = (case r of None \<Rightarrow> ret () | Some e \<Rightarrow> throw e)"

definition of_result :: "error + 'a \<Rightarrow> 'a io" where
  "of_result r = (case r of Inl e \<Rightarrow> throw e | Inr x \<Rightarrow> ret x)"

text \<open>
  The calls. The trace records each call when it is made, whether it then returns or
  throws; a \<open>tl.cd\<close> that throws leaves the working directory where it was.
\<close>

definition tl_cwd :: "string io" where
  "tl_cwd = (\<lambda>w. (Inr (cwd w), w))"

definition set_cwd :: "string \<Rightarrow> unit io" where
  "set_cwd p = (\<lambda>w. (Inr (), w\<lparr>cwd := p\<rparr>))"

definition tl_cd :: "env \<Rightarrow> string \<Rightarrow> unit io" where
  "tl_cd E p = io_then (emit (Cd p)) (io_then (may_throw (cd E p)) (set_cwd p))"

definition tl_cp :: "env \<Rightarrow> string \<Rightarrow> string \<Rightarrow> string \<Rightarrow> unit io" where
  "tl_cp E src dst opts = io_then (emit (Cp src dst opts)) (may_throw (cp E src dst))"

definition zip_execSync :: "env \<Rightarrow> string \<Rightarrow> string list \<Rightarrow> int io" where
  "zip_execSync E tool args =
     io_then (emit (ExecSync tool args))
       (io_bind tl_cwd (\<lambda>d. ret (execSync E tool args d)))"

definition temp_mkdir :: "env \<Rightarrow> string \<Rightarrow> string io" where
  "temp_mkdir E affix = io_then (emit (TempMkdir affix)) (of_result (mkdir E affix))"

definition common_checkUpdateTasksManifests :: "env \<Rightarrow> string \<Rightarrow> unit io" where
  "common_checkUpdateTasksManifests E p =
     io_then (emit (CheckUpdateTasksManifests p)) (may_throw (checkUpdateTasksManifests E p))"

definition fse_writeFile :: "env \<Rightarrow> string \<Rightarrow> string \<Rightarrow> unit io" where
  "fse_writeFile E p d = io_then (emit (WriteFile p d)) (may_throw (writeFile E p d))"

section \<open>Extraction and compression\<close>

definition extractArchive :: "env \<Rightarrow> string \<Rightarrow> string \<Rightarrow> unit io" where
  "extractArchive E vsix tmpPath =
     io_bind tl_cwd (\<lambda>cwd0.
     io_then
       (if getPlatform E = Windows then
          io_then (may_throw (import_7zip E))
            (zip_execSync E (default_path7za E)
               [''x'', vsix, ''-o'' @ tmpPath, ''task.json'', ''task.loc.json'',
                ''extension.vsixmanifest'', ''extension.vsomanifest'',
                ''-y'', ''-r'', ''-bd'', ''-aoa'', ''-spd''])
        else
          io_bind (of_result (which E ''unzip'')) (\<lambda>tool.
            zip_execSync E tool
              [''-o'', ''-C'', ''-d'', tmpPath, vsix, ''*/task.json'', ''*/task.loc.json'',
               ''extension.vsixmanifest'', ''extension.vsomanifest'']))
       (tl_cd E cwd0))"

definition createArchive :: "env \<Rightarrow> string \<Rightarrow> string \<Rightarrow> string \<Rightarrow> unit io" where
  "createArchive E originalVsix tmpPath targetVsix =
     io_bind tl_cwd (\<lambda>cwd0.
     io_then (if originalVsix \<noteq> targetVsix then tl_cp E originalVsix targetVsix ''-f''
              else ret ())
    (io_then
       (if getPlatform E = Windows then
          io_then (may_throw (import_7zip E))
            (zip_execSync E (module_path7za E)
               [''u'', targetVsix, path_join E tmpPath [CHR 0x5C, CHR ''*''],
                ''-r'', ''-y'', ''-tzip'', ''-mx9'', ''-bd''])
        else
          io_bind (of_result (which E ''zip'')) (\<lambda>tool.
          io_then (tl_cd E tmpPath)
            (zip_execSync E tool
               [path_join E cwd0 targetVsix, ''.'', ''-r'', ''-9'', ''-f''])))
       (tl_cd E cwd0)))"

section \<open>The output file name\<close>

text \<open>
  \<open>updateFileName\<close> is the closure inside \<open>createOutputFilePath\<close>. Its parameter \<open>fileName\<close>
  shadows the constant of the enclosing method, and its recursive call sits in the
  callback of \<open>fs.exists\<close>. The chain of callbacks ends, if it ends, in the \<open>else\<close> branch,
  whose only action is \<open>tl.debug("Generated filename: " + fileName)\<close>: the value here is
  that file name, and \<open>None\<close> when every probed name exists.
\<close>

definition gen_fileName :: "ManifestData \<Rightarrow> string \<Rightarrow> string" where
  "gen_fileName md gen =
     md_publisher md @ ''.'' @ md_id md @ ''-'' @ md_version md @ ''.gen'' @ gen @ ''.vsix''"

partial_function (option) updateFileName ::
  "env \<Rightarrow> ManifestData \<Rightarrow> string \<Rightarrow> string \<Rightarrow> nat \<Rightarrow> string option" where
  "updateFileName E md outPath fileName iteration =
     (let fileName1 = (if iteration > 0 then gen_fileName md (padStart2 (nat_toString iteration))
                       else fileName)
      in if fs_exists E (path_join E outPath fileName1)
         then updateFileName E md outPath fileName1 (iteration + 1)
         else Some fileName1)"

text \<open>
  \<open>createOutputFilePath\<close> starts the probe and returns its own constant \<open>fileName\<close> at once.
  The pair is the returned name and what the probe, which runs after the return, logs.
\<close>

definition createOutputFilePath :: "env \<Rightarrow> ManifestData \<Rightarrow> string \<Rightarrow> string \<times> string option" where
  "createOutputFilePath E md outPath =
     (let fileName = gen_fileName md []
      in (fileName, updateFileName E md outPath fileName 0))"

section \<open>editVsixManifest and endEdit\<close>

definition editVsixManifest :: "env \<Rightarrow> VSIXEditor \<Rightarrow> string \<Rightarrow> ManifestData io" where
  "editVsixManifest E s dirPath =
     io_then (may_throw (import_x2js E))
       (let vsixManifestPath = path_join E dirPath ''extension.vsixmanifest''
        in io_bind (of_result (readFile E vsixManifestPath)) (\<lambda>vsixManifestData.
           io_bind (of_result (xml2js E vsixManifestData)) (\<lambda>parsed.
             let vsixmanifest = patchManifest s parsed;
                 vsixManifestData1 = js2xml E vsixmanifest;
                 manifestData =
                   \<lparr>md_version = Identity_Version vsixmanifest,
                    md_id = Identity_Id vsixmanifest,
                    md_publisher = Identity_Publisher vsixmanifest,
                    md_visibility = extensionVisibility s,
                    md_pricing = extensionPricing s,
                    md_name = DisplayName vsixmanifest,
                    md_dirPath = dirPath,
                    outputFileName = None\<rparr>
             in io_then (fse_writeFile E vsixManifestPath vsixManifestData1)
                  (ret manifestData))))"

text \<open>
  The condition of line 208, \<open>this.versionNumber && this.updateTasksVersion || this.updateTasksId\<close>.
\<close>

definition updateTasks_condition :: "VSIXEditor \<Rightarrow> jsval" where
  "updateTasks_condition s =
     js_or (js_and (field (versionNumber s)) (JBool (updateTasksVersion s)))
           (JBool (updateTasksId s))"

definition endEdit :: "env \<Rightarrow> VSIXEditor \<Rightarrow> string io" where
  "endEdit E s =
     io_then (of_result (validateEditMode s))
       (if \<not> truthy (hasEdits s) then ret (inputFile s)
        else
          io_then (emit TempTrack)
         (io_bind (temp_mkdir E ''vsixeditor'') (\<lambda>dirPath.
          io_then (extractArchive E (inputFile s) dirPath)
         (io_then
            (if truthy (updateTasks_condition s)
             then common_checkUpdateTasksManifests E (path_join E dirPath ''extension.vsomanifest'')
             else ret ())
         (io_bind (editVsixManifest E s dirPath) (\<lambda>manifestData.
            let name = fst (createOutputFilePath E manifestData (outputPath s));
                manifestData1 = manifestData\<lparr>outputFileName := Some name\<rparr>
            in io_then (createArchive E (inputFile s) (md_dirPath manifestData1) name)
                 (ret name)))))))"

section \<open>Reading the trace; example inputs\<close>

text \<open>How often the nested task-manifest update was called in a trace.\<close>

fun is_update :: "event \<Rightarrow> bool" where
  "is_update (CheckUpdateTasksManifests p) = True"
| "is_update ev = False"

definition updates :: "event list \<Rightarrow> nat" where
  "updates t = length (filter is_update t)"

text \<open>
  Two properties of a computation, used to reason about the sequences of calls: it adds
  exactly \<open>n\<close> update calls to the trace, whatever the world and however it ends; and it
  leaves the working directory inside a set \<open>D\<close> of directories when it starts there.
\<close>

definition adds_updates :: "nat \<Rightarrow> 'a io \<Rightarrow> bool" where
  "adds_updates n m = (\<forall>w. updates (trace (snd (m w))) = updates (trace w) + n)"

definition cwd_stays :: "string set \<Rightarrow> 'a io \<Rightarrow> bool" where
  "cwd_stays D m = (\<forall>w. cwd w \<in> D \<longrightarrow> cwd (snd (m w)) \<in> D)"

text \<open>
  Whether \<open>endEdit\<close>, on a session with pending edits, gets as far as line 208: the
  scratch directory was allocated and the extraction returned.
\<close>

definition extraction_returns :: "env \<Rightarrow> VSIXEditor \<Rightarrow> world \<Rightarrow> bool" where
  "extraction_returns E s w =
     (case io_then (emit TempTrack)
             (io_bind (temp_mkdir E ''vsixeditor'') (extractArchive E (inputFile s))) w of
        (Inl e, w') \<Rightarrow> False
      | (Inr u, w') \<Rightarrow> True)"

text \<open>
  Example collaborators: a Linux agent on which every call succeeds and the output
  directory is empty; the same agent with \<open>Acme.Tool-1.0.0.gen.vsix\<close> already in the
  output directory; and the same agent with a \<open>zip\<close> that fails with exit code 12.
\<close>

definition example_manifest :: VsixManifest where
  "example_manifest =
     \<lparr>Identity_Id = ''Tool'', Identity_Version = ''1.0.0'', Identity_Publisher = ''Acme'',
      DisplayName = ''Tool'', GalleryFlags = ''Public''\<rparr>"

definition example_env :: env where
  "example_env =
     \<lparr>getPlatform = Linux, import_7zip = None, default_path7za = ''7za'',
      module_path7za = ''7za'', import_x2js = None,
      which = (\<lambda>tool. Inr (''/usr/bin/'' @ tool)),
      execSync = (\<lambda>tool args d. 0),
      cd = (\<lambda>p. None),
      cp = (\<lambda>src dst. None),
      mkdir = (\<lambda>affix. Inr (''/tmp/'' @ affix)),
      checkUpdateTasksManifests = (\<lambda>p. None),
      readFile = (\<lambda>p. Inr ''<PackageManifest/>''),
      xml2js = (\<lambda>d. Inr example_manifest),
      js2xml = (\<lambda>m. ''<PackageManifest/>''),
      writeFile = (\<lambda>p d. None),
      path_join = (\<lambda>a b. a @ ''/'' @ b),
      fs_exists = (\<lambda>p. False)\<rparr>"

definition example_env_taken :: env where
  "example_env_taken = example_env\<lparr>fs_exists := (\<lambda>p. p = ''out/Acme.Tool-1.0.0.gen.vsix'')\<rparr>"

definition example_env_zip_fails :: env where
  "example_env_zip_fails =
     example_env\<lparr>execSync := (\<lambda>tool args d. if tool = ''/usr/bin/zip'' then 12 else 0)\<rparr>"

definition example_world :: world where
  "example_world = \<lparr>cwd = ''/work'', trace = []\<rparr>"

definition example_data :: ManifestData where
  "example_data =
     \<lparr>md_version = ''1.0.0'', md_id = ''Tool'', md_publisher = ''Acme'',
      md_visibility = None, md_pricing = None, md_name = ''Tool'',
      md_dirPath = ''/tmp/vsixeditor'', outputFileName = None\<rparr>"

text \<open>A started session with nothing pending and \<open>updateTasksId\<close> switched off.\<close>

definition example_session :: VSIXEditor where
  "example_session =
     (new_VSIXEditor ''in.vsix'' ''out'')\<lparr>edit := True, updateTasksId := False\<rparr>"

section \<open>Facts about the primitives\<close>

lemma indexOf_neg_iff: "indexOf xs x < 0 \<longleftrightarrow> x \<notin> set xs"
  by (induction xs) (auto simp: Let_def)

lemma splice1_indexOf: "x \<in> set xs \<Longrightarrow> splice1 xs (nat (indexOf xs x)) = remove1 x xs"
proof (induction xs)
  case Nil
  then show ?case by simp
next
  case (Cons y ys)
  show ?case
  proof (cases "y = x")
    case True
    then show ?thesis by (simp add: splice1_def)
  next
    case False
    with Cons.prems have m: "x \<in> set ys" by simp
    then have nn: "\<not> indexOf ys x < 0" by (simp add: indexOf_neg_iff)
    then have "nat (indexOf ys x + 1) = Suc (nat (indexOf ys x))" by simp
    with False nn Cons.IH[OF m] show ?thesis by (simp add: splice1_def Let_def)
  qed
qed

text \<open>\<open>removeFlag\<close> deletes the first occurrence of the flag, and only that one.\<close>

lemma removeFlag_remove1: "removeFlag flags flag = remove1 flag flags"
proof (cases "flag \<in> set flags")
  case True
  then have "\<not> indexOf flags flag < 0" by (simp add: indexOf_neg_iff)
  with True show ?thesis by (simp add: removeFlag_def Let_def splice1_indexOf)
next
  case False
  then have "indexOf flags flag < 0" by (simp add: indexOf_neg_iff)
  with False show ?thesis by (simp add: removeFlag_def Let_def remove1_idem)
qed

lemma addFlag_eq: "addFlag flags flag = (if flag \<in> set flags then flags else flags @ [flag])"
  by (simp add: addFlag_def indexOf_neg_iff)

lemma split_space_nonempty: "split_space g \<noteq> []"
  by (induction g) auto

text \<open>Joining the pieces of a split gives the string back, whatever the string.\<close>

lemma join_split_space: "join_space (split_space g) = g"
proof (induction g)
  case Nil
  then show ?case by simp
next
  case (Cons c cs)
  obtain w ws where sp: "split_space cs = w # ws"
    using split_space_nonempty[of cs] by (cases "split_space cs") auto
  show ?case
  proof (cases "c = CHR '' ''")
    case True
    with Cons sp show ?thesis by simp
  next
    case False
    with Cons sp show ?thesis by (cases ws) auto
  qed
qed

lemma no_blank_token_split: "no_blank_token g \<Longrightarrow> [] \<notin> set (split_space g)"
proof (induction g rule: no_blank_token.induct)
  case 1
  then show ?case by simp
next
  case (2 c)
  then show ?case by simp
next
  case (3 c d cs)
  then show ?case
    using split_space_nonempty[of cs] split_space_nonempty[of "d # cs"]
    by (cases "split_space cs") (auto split: if_splits)
qed

lemma ctor_toString: "well_formed g \<Longrightarrow> toString (GalleryFlagsEditor g) = g"
proof (cases "g = []")
  case True
  then show ?thesis by (simp add: GalleryFlagsEditor_def toString_def)
next
  case False
  assume "well_formed g"
  with False have "[] \<notin> set (split_space g)"
    by (simp add: well_formed_def no_blank_token_split)
  then have "filter (\<lambda>f. f \<noteq> []) (split_space g) = split_space g"
    by (simp add: filter_id_conv) metis
  with False show ?thesis by (simp add: GalleryFlagsEditor_def toString_def join_split_space)
qed

text \<open>The string \<open>indexOf\<close> test is the substring test.\<close>

lemma str_indexOf_iff: "0 \<le> str_indexOf s n \<longleftrightarrow> sublist n s"
proof (induction s)
  case Nil
  then show ?case by simp
next
  case (Cons c cs)
  have sw: "starts_with (c # cs) n \<longleftrightarrow> prefix n (c # cs)"
    unfolding starts_with_def prefix_def by (metis append_eq_conv_conj append_take_drop_id)
  show ?case
  proof (cases "prefix n (c # cs)")
    case True
    then show ?thesis using sw by (auto simp: sublist_Cons_right)
  next
    case False
    then show ?thesis using sw Cons by (auto simp: sublist_Cons_right Let_def)
  qed
qed

lemma truthy_field: "truthy (field f) \<longleftrightarrow> (\<exists>v. f = Some v \<and> v \<noteq> [])"
  by (cases f) (simp_all add: field_def)

lemma truthy_not_default:
  "truthy (not_default f) \<longleftrightarrow> (\<exists>v. f = Some v \<and> v \<noteq> [] \<and> v \<noteq> ''default'')"
  by (cases f) (auto simp: not_default_def field_def js_and_def strict_neq_def)

lemma truthy_js_or: "truthy (js_or a b) \<longleftrightarrow> truthy a \<or> truthy b"
  by (simp add: js_or_def)

lemma truthy_js_and: "truthy (js_and a b) \<longleftrightarrow> truthy a \<and> truthy b"
  by (simp add: js_and_def)

lemma io_simps:
  "io_bind (ret x) f = f x"
  "io_bind (throw e) f = throw e"
  "io_then (ret x) k = k"
  "io_then (throw e) k = throw e"
  by (auto simp: io_bind_def io_then_def ret_def throw_def)

lemma io_apply:
  "ret x w = (Inr x, w)"
  "throw e w = (Inl e, w)"
  by (simp_all add: ret_def throw_def)

lemmas edit_defs = guarded_def validateEditMode_def editVersion_def editExtensionName_def
  editExtensionVisibility_def editExtensionPricing_def editId_def editIdTag_def
  editPublisher_def editUpdateTasksVersion_def editUpdateTasksId_def

section \<open>The flag editor\<close>

text \<open>
  C9. For every flag list and every token: adding a token that is already present leaves
  the list unchanged, so adding the same token twice is the same as adding it once;
  removing a token that is absent leaves the list unchanged; and for every well-formed
  space-delimited string (empty, or non-empty tokens separated by exactly one space),
  that holds no token twice, constructing a \<open>GalleryFlagsEditor\<close> from it and
  serialising gives the same string back.
\<close>

theorem flags_editor_idempotent:
  "(flag \<in> set flags \<longrightarrow> addFlag flags flag = flags)
   \<and> addFlag (addFlag flags flag) flag = addFlag flags flag
   \<and> (flag \<notin> set flags \<longrightarrow> removeFlag flags flag = flags)
   \<and> (well_formed g \<and> distinct (GalleryFlagsEditor g) \<longrightarrow> toString (GalleryFlagsEditor g) = g)"
  by (simp add: addFlag_eq removeFlag_remove1 remove1_idem ctor_toString)

theorem flags_editor_idempotent_witness:
  "addFlag [''Public'', ''Paid''] ''Paid'' = [''Public'', ''Paid'']
   \<and> removeFlag [''Public'', ''Paid''] ''Preview'' = [''Public'', ''Paid'']
   \<and> toString (GalleryFlagsEditor ''Public Paid'') = ''Public Paid''"
proof -
  have present: "''Paid'' \<in> set [''Public'', ''Paid'']" by simp
  have absent: "''Preview'' \<notin> set [''Public'', ''Paid'']" by simp
  have wf: "well_formed ''Public Paid''" by (simp add: well_formed_def)
  have dist: "distinct (GalleryFlagsEditor ''Public Paid'')"
    by (simp add: GalleryFlagsEditor_def)
  from present absent wf dist
    flags_editor_idempotent[of "''Paid''" "[''Public'', ''Paid'']" "''Public Paid''"]
    flags_editor_idempotent[of "''Preview''" "[''Public'', ''Paid'']" "''Public Paid''"]
  show ?thesis by blast
qed

section \<open>The session's state machine\<close>

lemma hasEdits_truthy:
  "truthy (hasEdits s) \<longleftrightarrow>
     (\<exists>v. versionNumber s = Some v \<and> v \<noteq> []) \<or>
     (\<exists>v. ext_id s = Some v \<and> v \<noteq> []) \<or>
     (\<exists>v. idTag s = Some v \<and> v \<noteq> []) \<or>
     (\<exists>v. publisher s = Some v \<and> v \<noteq> []) \<or>
     (\<exists>v. extensionName s = Some v \<and> v \<noteq> []) \<or>
     (\<exists>v. extensionVisibility s = Some v \<and> v \<noteq> [] \<and> v \<noteq> ''default'') \<or>
     (\<exists>v. extensionPricing s = Some v \<and> v \<noteq> [] \<and> v \<noteq> ''default'') \<or>
     updateTasksId s"
  unfolding hasEdits_def truthy_js_or truthy_field truthy_not_default by simp


lemma endEdit_not_started:
  "\<not> edit s \<Longrightarrow> endEdit E s w = (Inl (Error ''Editing is not started''), w)"
  by (simp add: endEdit_def validateEditMode_def of_result_def io_simps io_apply)

lemma endEdit_fast_path:
  "edit s \<Longrightarrow> \<not> truthy (hasEdits s) \<Longrightarrow> endEdit E s w = (Inr (inputFile s), w)"
  by (simp add: endEdit_def validateEditMode_def of_result_def io_simps io_apply)

lemma example_session_facts: "edit example_session" "\<not> truthy (hasEdits example_session)"
  by (simp_all add: example_session_def new_VSIXEditor_def hasEdits_truthy)





lemma not_default_string: "\<not> (truthy (not_default f) \<and> (\<exists>v. not_default f = JStr v))"
  by (cases f; auto simp: not_default_def js_and_def field_def strict_neq_def)






text \<open>
  C2, as the code has it. On a session that is not started, every edit method and
  \<open>endEdit\<close> fail with \<open>Error("Editing is not started")\<close>, and \<open>endEdit\<close> touches nothing.
  \<open>startEdit\<close> succeeds on such a session and fails with \<open>Error("Edit is already started")\<close>
  on every started one, so a second \<open>startEdit\<close> fails. \<open>endEdit\<close> does not write to the
  session: there is no finalized state, the session stays started, and a second \<open>endEdit\<close>
  passes the state check; with no pending edits it returns the input path again.
\<close>

theorem session_state_machine:
  "(\<not> edit s \<longrightarrow>
      editVersion a s = Inl (Error ''Editing is not started'') \<and>
      editExtensionName a s = Inl (Error ''Editing is not started'') \<and>
      editExtensionVisibility a s = Inl (Error ''Editing is not started'') \<and>
      editExtensionPricing a s = Inl (Error ''Editing is not started'') \<and>
      editId a s = Inl (Error ''Editing is not started'') \<and>
      editIdTag a s = Inl (Error ''Editing is not started'') \<and>
      editPublisher a s = Inl (Error ''Editing is not started'') \<and>
      editUpdateTasksVersion b s = Inl (Error ''Editing is not started'') \<and>
      editUpdateTasksId b s = Inl (Error ''Editing is not started'') \<and>
      endEdit E s w = (Inl (Error ''Editing is not started''), w) \<and>
      startEdit s = Inr (s\<lparr>edit := True\<rparr>) \<and>
      startEdit (s\<lparr>edit := True\<rparr>) = Inl (Error ''Edit is already started''))
   \<and> (edit s \<longrightarrow> startEdit s = Inl (Error ''Edit is already started''))
   \<and> (edit s \<and> \<not> truthy (hasEdits s) \<longrightarrow>
        endEdit E s w = (Inr (inputFile s), w) \<and>
        endEdit E s (snd (endEdit E s w)) = (Inr (inputFile s), w))"
  by (auto simp: edit_defs startEdit_def endEdit_not_started endEdit_fast_path)

theorem session_state_machine_witness:
  "editVersion (Some ''2.0'') (new_VSIXEditor ''in.vsix'' ''out'')
      = Inl (Error ''Editing is not started'')
   \<and> endEdit example_env (new_VSIXEditor ''in.vsix'' ''out'') example_world
      = (Inl (Error ''Editing is not started''), example_world)
   \<and> startEdit ((new_VSIXEditor ''in.vsix'' ''out'')\<lparr>edit := True\<rparr>)
      = Inl (Error ''Edit is already started'')
   \<and> startEdit example_session = Inl (Error ''Edit is already started'')
   \<and> endEdit example_env example_session (snd (endEdit example_env example_session example_world))
      = (Inr (inputFile example_session), example_world)"
proof -
  have fresh: "\<not> edit (new_VSIXEditor ''in.vsix'' ''out'')"
    by (simp add: new_VSIXEditor_def)
  from fresh example_session_facts
    session_state_machine[of "new_VSIXEditor ''in.vsix'' ''out''" "Some ''2.0''" True
      example_env example_world]
    session_state_machine[of example_session "Some ''2.0''" True example_env example_world]
  show ?thesis by blast
qed

text \<open>
  The claim as the specification states it fails on its last part: a session is started,
  \<open>updateTasksId\<close> is switched off, and \<open>endEdit\<close> is called twice. Both calls return the
  input path; the second does not fail.
\<close>

theorem endEdit_twice_counterexample:
  "startEdit (new_VSIXEditor ''in.vsix'' ''out'')
      = Inr ((new_VSIXEditor ''in.vsix'' ''out'')\<lparr>edit := True\<rparr>)
   \<and> editUpdateTasksId False ((new_VSIXEditor ''in.vsix'' ''out'')\<lparr>edit := True\<rparr>)
      = Inr example_session
   \<and> fst (endEdit example_env example_session example_world) = Inr ''in.vsix''
   \<and> fst (endEdit example_env example_session
            (snd (endEdit example_env example_session example_world))) = Inr ''in.vsix''"
  by (simp add: startEdit_def new_VSIXEditor_def example_session_def edit_defs
        endEdit_def of_result_def io_simps io_apply hasEdits_def js_or_def field_def
        not_default_def js_and_def)

text \<open>
  C3. For every started session in which \<open>hasEdits()\<close> is falsy, \<open>endEdit\<close> returns the
  input archive path and leaves the world as it found it: the trace gains no call (no
  temporary directory, no extraction, no copy, no archive tool, no file written) and the
  working directory is the same.
\<close>

theorem endEdit_no_edits_noop:
  assumes "edit s" and "\<not> truthy (hasEdits s)"
  shows "endEdit E s w = (Inr (inputFile s), w)"
  using assms by (rule endEdit_fast_path)

theorem endEdit_no_edits_noop_witness:
  "endEdit example_env example_session example_world = (Inr ''in.vsix'', example_world)"
  using endEdit_no_edits_noop[OF example_session_facts, of example_env example_world]
  by (simp add: example_session_def new_VSIXEditor_def)

section \<open>Empty strings\<close>

lemma endEdit_cong:
  assumes "edit s1 = edit s0" and "hasEdits s1 = hasEdits s0"
    and "updateTasks_condition s1 = updateTasks_condition s0"
    and "patchManifest s1 = patchManifest s0"
    and "extensionVisibility s1 = extensionVisibility s0"
    and "extensionPricing s1 = extensionPricing s0"
    and "inputFile s1 = inputFile s0" and "outputPath s1 = outputPath s0"
  shows "endEdit E s1 = endEdit E s0"
  using assms by (simp add: endEdit_def editVsixManifest_def validateEditMode_def)

lemma js_or_empty: "js_or (JStr []) b = b" "js_or JNull b = b"
  by (simp_all add: js_or_def)

lemma js_and_empty: "js_or (js_and (JStr []) a) b = b" "js_or (js_and JNull a) b = b"
  by (simp_all add: js_or_def js_and_def)

lemma when_set_unset: "when_set (Some []) upd x = x" "when_set None upd x = x"
  by (simp_all add: when_set_def)

lemma when_set_other:
  "(\<And>v y. sel (upd v y) = sel y) \<Longrightarrow> sel (when_set f upd x) = sel x"
  by (simp add: when_set_def split: option.splits)

lemma when_not_default_other:
  "(\<And>v y. sel (upd v y) = sel y) \<Longrightarrow> sel (when_not_default f upd x) = sel x"
  by (simp add: when_not_default_def split: option.splits)

lemma patchManifest_Version:
  "Identity_Version (patchManifest s m) =
     (case versionNumber s of None \<Rightarrow> Identity_Version m
      | Some v \<Rightarrow> if v \<noteq> [] then v else Identity_Version m)"
proof -
  have "Identity_Version (patchManifest s m)
          = Identity_Version (when_set (versionNumber s) (\<lambda>v x. x\<lparr>Identity_Version := v\<rparr>) m)"
    unfolding patchManifest_def Let_def
    by (simp add: when_set_other[where sel = Identity_Version]
        when_not_default_other[where sel = Identity_Version])
  then show ?thesis by (simp add: when_set_def split: option.splits)
qed

lemma patchManifest_Id:
  "Identity_Id (patchManifest s m) =
     (case ext_id s of None \<Rightarrow> Identity_Id m | Some i \<Rightarrow> if i \<noteq> [] then i else Identity_Id m)
     @ (case idTag s of None \<Rightarrow> [] | Some t \<Rightarrow> t)"
proof -
  have "Identity_Id (patchManifest s m)
          = Identity_Id (when_set (idTag s) (\<lambda>v x. x\<lparr>Identity_Id := Identity_Id x @ v\<rparr>)
              (when_set (ext_id s) (\<lambda>v x. x\<lparr>Identity_Id := v\<rparr>)
                (when_set (versionNumber s) (\<lambda>v x. x\<lparr>Identity_Version := v\<rparr>) m)))"
    unfolding patchManifest_def Let_def
    by (simp add: when_set_other[where sel = Identity_Id]
        when_not_default_other[where sel = Identity_Id])
  also have "\<dots> = (case ext_id s of None \<Rightarrow> Identity_Id m
                     | Some i \<Rightarrow> if i \<noteq> [] then i else Identity_Id m)
                   @ (case idTag s of None \<Rightarrow> [] | Some t \<Rightarrow> t)"
    by (cases "versionNumber s"; cases "ext_id s"; cases "idTag s")
       (simp_all add: when_set_def)
  finally show ?thesis .
qed

lemma patchManifest_Publisher:
  "Identity_Publisher (patchManifest s m) =
     (case publisher s of None \<Rightarrow> Identity_Publisher m
      | Some v \<Rightarrow> if v \<noteq> [] then v else Identity_Publisher m)"
proof -
  have "Identity_Publisher (patchManifest s m)
          = Identity_Publisher (when_set (publisher s) (\<lambda>v x. x\<lparr>Identity_Publisher := v\<rparr>) m)"
    unfolding patchManifest_def Let_def
    by (simp add: when_set_other[where sel = Identity_Publisher]
        when_not_default_other[where sel = Identity_Publisher] when_set_def
        split: option.splits)
  then show ?thesis by (simp add: when_set_def split: option.splits)
qed

lemma patchManifest_DisplayName:
  "DisplayName (patchManifest s m) =
     (case extensionName s of None \<Rightarrow> DisplayName m
      | Some v \<Rightarrow> if v \<noteq> [] then v else DisplayName m)"
proof -
  have "DisplayName (patchManifest s m)
          = DisplayName (when_set (extensionName s) (\<lambda>v x. x\<lparr>DisplayName := v\<rparr>) m)"
    unfolding patchManifest_def Let_def
    by (simp add: when_set_other[where sel = DisplayName]
        when_not_default_other[where sel = DisplayName] when_set_def
        split: option.splits)
  then show ?thesis by (simp add: when_set_def split: option.splits)
qed

lemmas patchManifest_fields = patchManifest_Version patchManifest_Id patchManifest_Publisher
  patchManifest_DisplayName

lemma empty_Version:
  assumes "edit s"
  shows "editVersion (Some []) s = Inr (s\<lparr>versionNumber := Some []\<rparr>)
     \<and> hasEdits (s\<lparr>versionNumber := Some []\<rparr>) = hasEdits (s\<lparr>versionNumber := None\<rparr>)
     \<and> patchManifest (s\<lparr>versionNumber := Some []\<rparr>) m = patchManifest (s\<lparr>versionNumber := None\<rparr>) m
     \<and> endEdit E (s\<lparr>versionNumber := Some []\<rparr>) = endEdit E (s\<lparr>versionNumber := None\<rparr>)
     \<and> Identity_Version (patchManifest (s\<lparr>versionNumber := Some []\<rparr>) m) = Identity_Version m"
proof -
  have h: "hasEdits (s\<lparr>versionNumber := Some []\<rparr>) = hasEdits (s\<lparr>versionNumber := None\<rparr>)"
    by (simp add: hasEdits_def field_def js_or_def)
  have p: "patchManifest (s\<lparr>versionNumber := Some []\<rparr>) = patchManifest (s\<lparr>versionNumber := None\<rparr>)"
    by (rule ext) (simp add: patchManifest_def when_set_unset)
  have e: "endEdit E (s\<lparr>versionNumber := Some []\<rparr>) = endEdit E (s\<lparr>versionNumber := None\<rparr>)"
    by (rule endEdit_cong; simp add: h p updateTasks_condition_def field_def js_and_empty)
  have v: "Identity_Version (patchManifest (s\<lparr>versionNumber := Some []\<rparr>) m) = Identity_Version m"
    by (simp add: patchManifest_fields)
  from assms have "editVersion (Some []) s = Inr (s\<lparr>versionNumber := Some []\<rparr>)"
    by (simp add: edit_defs)
  with h p e v show ?thesis by simp
qed

lemma empty_Id:
  assumes "edit s"
  shows "editId (Some []) s = Inr (s\<lparr>ext_id := Some []\<rparr>)
     \<and> hasEdits (s\<lparr>ext_id := Some []\<rparr>) = hasEdits (s\<lparr>ext_id := None\<rparr>)
     \<and> patchManifest (s\<lparr>ext_id := Some []\<rparr>) m = patchManifest (s\<lparr>ext_id := None\<rparr>) m
     \<and> endEdit E (s\<lparr>ext_id := Some []\<rparr>) = endEdit E (s\<lparr>ext_id := None\<rparr>)
     \<and> Identity_Id (patchManifest (s\<lparr>ext_id := Some []\<rparr>) m)
         = Identity_Id m @ (case idTag s of None \<Rightarrow> [] | Some t \<Rightarrow> t)"
proof -
  have h: "hasEdits (s\<lparr>ext_id := Some []\<rparr>) = hasEdits (s\<lparr>ext_id := None\<rparr>)"
    by (simp add: hasEdits_def field_def js_or_def)
  have p: "patchManifest (s\<lparr>ext_id := Some []\<rparr>) = patchManifest (s\<lparr>ext_id := None\<rparr>)"
    by (rule ext) (simp add: patchManifest_def when_set_unset)
  have e: "endEdit E (s\<lparr>ext_id := Some []\<rparr>) = endEdit E (s\<lparr>ext_id := None\<rparr>)"
    by (rule endEdit_cong; simp add: h p updateTasks_condition_def field_def js_and_empty)
  have v: "Identity_Id (patchManifest (s\<lparr>ext_id := Some []\<rparr>) m)
         = Identity_Id m @ (case idTag s of None \<Rightarrow> [] | Some t \<Rightarrow> t)"
    by (simp add: patchManifest_fields)
  from assms have "editId (Some []) s = Inr (s\<lparr>ext_id := Some []\<rparr>)"
    by (simp add: edit_defs)
  with h p e v show ?thesis by simp
qed

lemma empty_IdTag:
  assumes "edit s"
  shows "editIdTag (Some []) s = Inr (s\<lparr>idTag := Some []\<rparr>)
     \<and> hasEdits (s\<lparr>idTag := Some []\<rparr>) = hasEdits (s\<lparr>idTag := None\<rparr>)
     \<and> patchManifest (s\<lparr>idTag := Some []\<rparr>) m = patchManifest (s\<lparr>idTag := None\<rparr>) m
     \<and> endEdit E (s\<lparr>idTag := Some []\<rparr>) = endEdit E (s\<lparr>idTag := None\<rparr>)
     \<and> Identity_Id (patchManifest (s\<lparr>idTag := Some []\<rparr>) m)
         = (case ext_id s of None \<Rightarrow> Identity_Id m
            | Some i \<Rightarrow> if i \<noteq> [] then i else Identity_Id m)"
proof -
  have h: "hasEdits (s\<lparr>idTag := Some []\<rparr>) = hasEdits (s\<lparr>idTag := None\<rparr>)"
    by (simp add: hasEdits_def field_def js_or_def)
  have p: "patchManifest (s\<lparr>idTag := Some []\<rparr>) = patchManifest (s\<lparr>idTag := None\<rparr>)"
    by (rule ext) (simp add: patchManifest_def when_set_unset)
  have e: "endEdit E (s\<lparr>idTag := Some []\<rparr>) = endEdit E (s\<lparr>idTag := None\<rparr>)"
    by (rule endEdit_cong; simp add: h p updateTasks_condition_def field_def js_and_empty)
  have v: "Identity_Id (patchManifest (s\<lparr>idTag := Some []\<rparr>) m)
         = (case ext_id s of None \<Rightarrow> Identity_Id m
            | Some i \<Rightarrow> if i \<noteq> [] then i else Identity_Id m)"
    by (simp add: patchManifest_fields)
  from assms have "editIdTag (Some []) s = Inr (s\<lparr>idTag := Some []\<rparr>)"
    by (simp add: edit_defs)
  with h p e v show ?thesis by simp
qed

lemma empty_Publisher:
  assumes "edit s"
  shows "editPublisher (Some []) s = Inr (s\<lparr>publisher := Some []\<rparr>)
     \<and> hasEdits (s\<lparr>publisher := Some []\<rparr>) = hasEdits (s\<lparr>publisher := None\<rparr>)
     \<and> patchManifest (s\<lparr>publisher := Some []\<rparr>) m = patchManifest (s\<lparr>publisher := None\<rparr>) m
     \<and> endEdit E (s\<lparr>publisher := Some []\<rparr>) = endEdit E (s\<lparr>publisher := None\<rparr>)
     \<and> Identity_Publisher (patchManifest (s\<lparr>publisher := Some []\<rparr>) m) = Identity_Publisher m"
proof -
  have h: "hasEdits (s\<lparr>publisher := Some []\<rparr>) = hasEdits (s\<lparr>publisher := None\<rparr>)"
    by (simp add: hasEdits_def field_def js_or_def)
  have p: "patchManifest (s\<lparr>publisher := Some []\<rparr>) = patchManifest (s\<lparr>publisher := None\<rparr>)"
    by (rule ext) (simp add: patchManifest_def when_set_unset)
  have e: "endEdit E (s\<lparr>publisher := Some []\<rparr>) = endEdit E (s\<lparr>publisher := None\<rparr>)"
    by (rule endEdit_cong; simp add: h p updateTasks_condition_def field_def js_and_empty)
  have v: "Identity_Publisher (patchManifest (s\<lparr>publisher := Some []\<rparr>) m) = Identity_Publisher m"
    by (simp add: patchManifest_fields)
  from assms have "editPublisher (Some []) s = Inr (s\<lparr>publisher := Some []\<rparr>)"
    by (simp add: edit_defs)
  with h p e v show ?thesis by simp
qed

lemma empty_ExtensionName:
  assumes "edit s"
  shows "editExtensionName (Some []) s = Inr (s\<lparr>extensionName := Some []\<rparr>)
     \<and> hasEdits (s\<lparr>extensionName := Some []\<rparr>) = hasEdits (s\<lparr>extensionName := None\<rparr>)
     \<and> patchManifest (s\<lparr>extensionName := Some []\<rparr>) m = patchManifest (s\<lparr>extensionName := None\<rparr>) m
     \<and> endEdit E (s\<lparr>extensionName := Some []\<rparr>) = endEdit E (s\<lparr>extensionName := None\<rparr>)
     \<and> DisplayName (patchManifest (s\<lparr>extensionName := Some []\<rparr>) m) = DisplayName m"
proof -
  have h: "hasEdits (s\<lparr>extensionName := Some []\<rparr>) = hasEdits (s\<lparr>extensionName := None\<rparr>)"
    by (simp add: hasEdits_def field_def js_or_def)
  have p: "patchManifest (s\<lparr>extensionName := Some []\<rparr>) = patchManifest (s\<lparr>extensionName := None\<rparr>)"
    by (rule ext) (simp add: patchManifest_def when_set_unset)
  have e: "endEdit E (s\<lparr>extensionName := Some []\<rparr>) = endEdit E (s\<lparr>extensionName := None\<rparr>)"
    by (rule endEdit_cong; simp add: h p updateTasks_condition_def field_def js_and_empty)
  have v: "DisplayName (patchManifest (s\<lparr>extensionName := Some []\<rparr>) m) = DisplayName m"
    by (simp add: patchManifest_fields)
  from assms have "editExtensionName (Some []) s = Inr (s\<lparr>extensionName := Some []\<rparr>)"
    by (simp add: edit_defs)
  with h p e v show ?thesis by simp
qed

text \<open>
  C10. On a started session, \<open>editVersion("")\<close>, \<open>editId("")\<close>, \<open>editIdTag("")\<close>,
  \<open>editPublisher("")\<close> and \<open>editExtensionName("")\<close> are accepted and store the empty
  string, and the session then behaves as the one whose field is still \<open>null\<close>:
  \<open>hasEdits()\<close> returns the same value, the patcher produces the same manifest, and
  \<open>endEdit\<close> is the same computation. The manifest value that belongs to the field is what
  it was: Version, Publisher and DisplayName are the input's; after \<open>editId("")\<close> the Id is
  the input's Id followed by the pending tag, if any; after \<open>editIdTag("")\<close> the Id is the
  pending id, or the input's Id when none is pending.
\<close>

theorem empty_string_is_unset:
  assumes "edit s"
  shows
    "(editVersion (Some []) s = Inr (s\<lparr>versionNumber := Some []\<rparr>)
     \<and> hasEdits (s\<lparr>versionNumber := Some []\<rparr>) = hasEdits (s\<lparr>versionNumber := None\<rparr>)
     \<and> patchManifest (s\<lparr>versionNumber := Some []\<rparr>) m = patchManifest (s\<lparr>versionNumber := None\<rparr>) m
     \<and> endEdit E (s\<lparr>versionNumber := Some []\<rparr>) = endEdit E (s\<lparr>versionNumber := None\<rparr>)
     \<and> Identity_Version (patchManifest (s\<lparr>versionNumber := Some []\<rparr>) m) = Identity_Version m)
   \<and> (editId (Some []) s = Inr (s\<lparr>ext_id := Some []\<rparr>)
     \<and> hasEdits (s\<lparr>ext_id := Some []\<rparr>) = hasEdits (s\<lparr>ext_id := None\<rparr>)
     \<and> patchManifest (s\<lparr>ext_id := Some []\<rparr>) m = patchManifest (s\<lparr>ext_id := None\<rparr>) m
     \<and> endEdit E (s\<lparr>ext_id := Some []\<rparr>) = endEdit E (s\<lparr>ext_id := None\<rparr>)
     \<and> Identity_Id (patchManifest (s\<lparr>ext_id := Some []\<rparr>) m)
         = Identity_Id m @ (case idTag s of None \<Rightarrow> [] | Some t \<Rightarrow> t))
   \<and> (editIdTag (Some []) s = Inr (s\<lparr>idTag := Some []\<rparr>)
     \<and> hasEdits (s\<lparr>idTag := Some []\<rparr>) = hasEdits (s\<lparr>idTag := None\<rparr>)
     \<and> patchManifest (s\<lparr>idTag := Some []\<rparr>) m = patchManifest (s\<lparr>idTag := None\<rparr>) m
     \<and> endEdit E (s\<lparr>idTag := Some []\<rparr>) = endEdit E (s\<lparr>idTag := None\<rparr>)
     \<and> Identity_Id (patchManifest (s\<lparr>idTag := Some []\<rparr>) m)
         = (case ext_id s of None \<Rightarrow> Identity_Id m
            | Some i \<Rightarrow> if i \<noteq> [] then i else Identity_Id m))
   \<and> (editPublisher (Some []) s = Inr (s\<lparr>publisher := Some []\<rparr>)
     \<and> hasEdits (s\<lparr>publisher := Some []\<rparr>) = hasEdits (s\<lparr>publisher := None\<rparr>)
     \<and> patchManifest (s\<lparr>publisher := Some []\<rparr>) m = patchManifest (s\<lparr>publisher := None\<rparr>) m
     \<and> endEdit E (s\<lparr>publisher := Some []\<rparr>) = endEdit E (s\<lparr>publisher := None\<rparr>)
     \<and> Identity_Publisher (patchManifest (s\<lparr>publisher := Some []\<rparr>) m) = Identity_Publisher m)
   \<and> (editExtensionName (Some []) s = Inr (s\<lparr>extensionName := Some []\<rparr>)
     \<and> hasEdits (s\<lparr>extensionName := Some []\<rparr>) = hasEdits (s\<lparr>extensionName := None\<rparr>)
     \<and> patchManifest (s\<lparr>extensionName := Some []\<rparr>) m = patchManifest (s\<lparr>extensionName := None\<rparr>) m
     \<and> endEdit E (s\<lparr>extensionName := Some []\<rparr>) = endEdit E (s\<lparr>extensionName := None\<rparr>)
     \<and> DisplayName (patchManifest (s\<lparr>extensionName := Some []\<rparr>) m) = DisplayName m)"
  using empty_Version[OF assms, of m E] empty_Id[OF assms, of m E] empty_IdTag[OF assms, of m E]
    empty_Publisher[OF assms, of m E] empty_ExtensionName[OF assms, of m E]
  by blast

theorem empty_string_is_unset_witness:
  "editVersion (Some []) example_session = Inr (example_session\<lparr>versionNumber := Some []\<rparr>)
   \<and> hasEdits (example_session\<lparr>versionNumber := Some []\<rparr>) = JBool False
   \<and> Identity_Version (patchManifest (example_session\<lparr>versionNumber := Some []\<rparr>) example_manifest)
       = ''1.0.0''
   \<and> Identity_Id (patchManifest (example_session\<lparr>ext_id := Some []\<rparr>) example_manifest)
       = ''Tool''"
proof -
  note t = empty_string_is_unset[OF example_session_facts(1), of example_manifest example_env]
  have a: "editVersion (Some []) example_session
             = Inr (example_session\<lparr>versionNumber := Some []\<rparr>)"
    using t by blast
  have b: "hasEdits (example_session\<lparr>versionNumber := Some []\<rparr>)
             = hasEdits (example_session\<lparr>versionNumber := None\<rparr>)"
    using t by blast
  have c: "Identity_Version (patchManifest (example_session\<lparr>versionNumber := Some []\<rparr>)
             example_manifest) = Identity_Version example_manifest"
    using t by blast
  have d: "Identity_Id (patchManifest (example_session\<lparr>ext_id := Some []\<rparr>) example_manifest)
             = Identity_Id example_manifest
               @ (case idTag example_session of None \<Rightarrow> [] | Some t \<Rightarrow> t)"
    using t by blast
  have b': "hasEdits (example_session\<lparr>versionNumber := None\<rparr>) = JBool False"
    by (simp add: example_session_def new_VSIXEditor_def hasEdits_def field_def js_or_def
        not_default_def js_and_def)
  have c': "Identity_Version example_manifest = ''1.0.0''"
    and d': "Identity_Id example_manifest = ''Tool''" "idTag example_session = None"
    by (simp_all add: example_manifest_def example_session_def new_VSIXEditor_def)
  show ?thesis
    unfolding a b b' c c' d d' by simp
qed

section \<open>Gallery flags\<close>

lemma count_addFlag:
  "count_list (addFlag ts f) t = (if t = f then max 1 (count_list ts f) else count_list ts t)"
proof (cases "f \<in> set ts")
  case True
  then have "count_list ts f \<noteq> 0" by (simp add: count_list_0_iff)
  with True show ?thesis by (auto simp: addFlag_eq)
next
  case False
  then show ?thesis by (auto simp: addFlag_eq count_list_0_iff)
qed

lemma count_remove1:
  "count_list (remove1 f ts) t = (if t = f then count_list ts t - 1 else count_list ts t)"
  by (induction ts) auto

lemma count_removeFlag:
  "count_list (removeFlag ts f) t = (if t = f then count_list ts t - 1 else count_list ts t)"
  by (simp add: removeFlag_remove1 count_remove1)

lemma filter_remove1_other: "\<not> P f \<Longrightarrow> filter P (remove1 f ts) = filter P ts"
  by (induction ts) auto

lemma filter_addFlag: "\<not> P f \<Longrightarrow> filter P (addFlag ts f) = filter P ts"
  by (simp add: addFlag_eq)

lemma filter_removeFlag: "\<not> P f \<Longrightarrow> filter P (removeFlag ts f) = filter P ts"
  by (simp add: removeFlag_remove1 filter_remove1_other)

lemma split_space_pieces: "t \<in> set (split_space g) \<Longrightarrow> CHR '' '' \<notin> set t"
proof (induction g arbitrary: t)
  case Nil
  then show ?case by simp
next
  case (Cons c cs)
  obtain w ws where sp: "split_space cs = w # ws"
    using split_space_nonempty[of cs] by (cases "split_space cs") auto
  with Cons show ?case by (auto split: if_splits)
qed

lemma split_space_spacefree:
  "CHR '' '' \<notin> set w \<Longrightarrow> split_space (w @ CHR '' '' # r) = w # split_space r"
  by (induction w) auto

lemma split_space_single: "CHR '' '' \<notin> set w \<Longrightarrow> split_space w = [w]"
  by (induction w) auto

lemma split_join_space:
  "ts \<noteq> [] \<Longrightarrow> \<forall>t\<in>set ts. CHR '' '' \<notin> set t \<Longrightarrow> split_space (join_space ts) = ts"
  by (induction ts rule: join_space.induct)
     (simp_all add: split_space_single split_space_spacefree)

lemma clean_ctor: "clean_tokens (GalleryFlagsEditor g)"
  by (auto simp: clean_tokens_def list_all_iff GalleryFlagsEditor_def dest: split_space_pieces)

lemma join_space_Nil_iff: "clean_tokens ts \<Longrightarrow> join_space ts = [] \<longleftrightarrow> ts = []"
  by (induction ts rule: join_space.induct) (auto simp: clean_tokens_def)

text \<open>Serialising a clean token list and constructing an editor again gives the list back.\<close>

lemma ctor_of_toString: "clean_tokens ts \<Longrightarrow> GalleryFlagsEditor (toString ts) = ts"
proof (cases "ts = []")
  case True
  then show ?thesis by (simp add: GalleryFlagsEditor_def toString_def)
next
  case False
  assume c: "clean_tokens ts"
  with False have ne: "join_space ts \<noteq> []" by (simp add: join_space_Nil_iff)
  from c False have "split_space (join_space ts) = ts"
    by (simp add: split_join_space clean_tokens_def list_all_iff)
  moreover from c have "filter (\<lambda>f. f \<noteq> []) ts = ts"
    by (auto simp: clean_tokens_def list_all_iff filter_id_conv)
  ultimately show ?thesis using ne by (simp add: GalleryFlagsEditor_def toString_def)
qed

lemma clean_addFlag:
  "clean_tokens ts \<Longrightarrow> f \<noteq> [] \<Longrightarrow> CHR '' '' \<notin> set f \<Longrightarrow> clean_tokens (addFlag ts f)"
  by (auto simp: clean_tokens_def list_all_iff addFlag_eq)

lemma clean_removeFlag: "clean_tokens ts \<Longrightarrow> clean_tokens (removeFlag ts f)"
  by (auto simp: clean_tokens_def list_all_iff removeFlag_remove1 dest: notin_set_remove1)

lemmas flag_defs = addPublicFlag_def removePublicFlag_def addPreviewFlag_def
  removePreviewFlag_def addPaidFlag_def removePaidFlag_def

lemma clean_applyVisibility: "clean_tokens ts \<Longrightarrow> clean_tokens (applyVisibility v ts)"
  by (simp add: applyVisibility_def Let_def flag_defs clean_addFlag clean_removeFlag)

lemma clean_applyPricing: "clean_tokens ts \<Longrightarrow> clean_tokens (applyPricing p ts)"
  by (simp add: applyPricing_def Let_def flag_defs clean_addFlag clean_removeFlag)

lemma count_applyVisibility:
  "count_list (applyVisibility v ts) ''Public'' =
     (if sublist ''public'' v then max 1 (count_list ts ''Public'')
      else count_list ts ''Public'' - 1)"
  "count_list (applyVisibility v ts) ''Preview'' =
     (if sublist ''preview'' v then max 1 (count_list ts ''Preview'')
      else count_list ts ''Preview'' - 1)"
  by (simp_all add: applyVisibility_def Let_def flag_defs count_addFlag count_removeFlag
      str_indexOf_iff)

lemma filter_applyVisibility:
  "\<not> P ''Public'' \<Longrightarrow> \<not> P ''Preview'' \<Longrightarrow> filter P (applyVisibility v ts) = filter P ts"
  by (simp add: applyVisibility_def Let_def flag_defs filter_addFlag filter_removeFlag)

lemma count_applyVisibility_other:
  "t \<noteq> ''Public'' \<Longrightarrow> t \<noteq> ''Preview'' \<Longrightarrow> count_list (applyVisibility v ts) t = count_list ts t"
  by (simp add: applyVisibility_def Let_def flag_defs count_addFlag count_removeFlag)

lemma filter_applyPricing: "\<not> P ''Paid'' \<Longrightarrow> filter P (applyPricing p ts) = filter P ts"
  by (simp add: applyPricing_def Let_def flag_defs filter_addFlag filter_removeFlag)

lemma count_applyPricing_other:
  "t \<noteq> ''Paid'' \<Longrightarrow> count_list (applyPricing p ts) t = count_list ts t"
  by (simp add: applyPricing_def Let_def flag_defs count_addFlag count_removeFlag)

lemma applyPricing_cases:
  "sublist ''paid'' p \<Longrightarrow> ''Paid'' \<in> set (applyPricing p ts)"
  "sublist ''free'' p \<Longrightarrow> \<not> sublist ''paid'' p \<Longrightarrow>
     count_list (applyPricing p ts) ''Paid'' = count_list ts ''Paid'' - 1"
  "\<not> sublist ''free'' p \<Longrightarrow> \<not> sublist ''paid'' p \<Longrightarrow> applyPricing p ts = ts"
  by (simp_all add: applyPricing_def Let_def flag_defs str_indexOf_iff addFlag_eq
      count_removeFlag count_addFlag)

text \<open>What the two flag blocks of the patcher do to the \<open>GalleryFlags\<close> text.\<close>

lemma GalleryFlags_when_not_default:
  "GalleryFlags (when_not_default f (\<lambda>v x. x\<lparr>GalleryFlags := F v (GalleryFlags x)\<rparr>) x)
     = when_not_default f F (GalleryFlags x)"
  by (simp add: when_not_default_def split: option.splits)

lemma GalleryFlags_patchManifest:
  "GalleryFlags (patchManifest s m) =
     when_not_default (extensionPricing s) editPricingFlags
       (when_not_default (extensionVisibility s) editVisibilityFlags (GalleryFlags m))"
  unfolding patchManifest_def Let_def
  by (simp add: GalleryFlags_when_not_default when_set_other[where sel = GalleryFlags])

lemma when_not_default_pending:
  "v \<noteq> [] \<Longrightarrow> v \<noteq> ''default'' \<Longrightarrow> when_not_default (Some v) F x = F v x"
  by (simp add: when_not_default_def truthy_not_default)

text \<open>
  The tokens of the patched \<open>GalleryFlags\<close>, when at least one of the two requests is
  pending: the pricing calls applied to the result of the visibility calls.
\<close>

lemma tokens_visibility_pending:
  assumes "extensionVisibility s = Some v" "v \<noteq> []" "v \<noteq> ''default''"
  shows "GalleryFlagsEditor (GalleryFlags (patchManifest s m)) =
           when_not_default (extensionPricing s) applyPricing
             (applyVisibility v (GalleryFlagsEditor (GalleryFlags m)))"
proof -
  let ?T = "applyVisibility v (GalleryFlagsEditor (GalleryFlags m))"
  have c: "clean_tokens ?T" by (simp add: clean_applyVisibility clean_ctor)
  have g: "GalleryFlags (patchManifest s m)
             = when_not_default (extensionPricing s) editPricingFlags (toString ?T)"
    using assms
    by (simp add: GalleryFlags_patchManifest when_not_default_pending editVisibilityFlags_def)
  show ?thesis
  proof (cases "truthy (not_default (extensionPricing s))")
    case True
    then obtain p where p: "extensionPricing s = Some p" "p \<noteq> []" "p \<noteq> ''default''"
      by (auto simp: truthy_not_default)
    with g c show ?thesis
      by (simp add: when_not_default_pending editPricingFlags_def ctor_of_toString
          clean_applyPricing)
  next
    case False
    with g c show ?thesis
      by (simp add: when_not_default_def ctor_of_toString split: option.splits)
  qed
qed

lemma tokens_pricing_pending:
  assumes "extensionPricing s = Some p" "p \<noteq> []" "p \<noteq> ''default''"
  shows "GalleryFlagsEditor (GalleryFlags (patchManifest s m)) =
           applyPricing p
             (when_not_default (extensionVisibility s) applyVisibility
               (GalleryFlagsEditor (GalleryFlags m)))"
proof -
  have g: "GalleryFlags (patchManifest s m)
             = toString (applyPricing p (GalleryFlagsEditor
                 (when_not_default (extensionVisibility s) editVisibilityFlags (GalleryFlags m))))"
    using assms
    by (simp add: GalleryFlags_patchManifest when_not_default_pending editPricingFlags_def)
  have t: "GalleryFlagsEditor
             (when_not_default (extensionVisibility s) editVisibilityFlags (GalleryFlags m))
           = when_not_default (extensionVisibility s) applyVisibility
               (GalleryFlagsEditor (GalleryFlags m))"
    by (simp add: when_not_default_def editVisibilityFlags_def ctor_of_toString
        clean_applyVisibility clean_ctor split: option.splits)
  have "clean_tokens (when_not_default (extensionVisibility s) applyVisibility
          (GalleryFlagsEditor (GalleryFlags m)))"
    by (simp add: when_not_default_def clean_applyVisibility clean_ctor split: option.splits)
  then show ?thesis
    unfolding g t by (simp add: ctor_of_toString clean_applyPricing)
qed
lemma count_when_pricing_other:
  "t \<noteq> ''Paid'' \<Longrightarrow> count_list (when_not_default f applyPricing ts) t = count_list ts t"
  by (simp add: when_not_default_def count_applyPricing_other split: option.splits)

lemma filter_when_pricing:
  "\<not> P ''Paid'' \<Longrightarrow> filter P (when_not_default f applyPricing ts) = filter P ts"
  by (simp add: when_not_default_def filter_applyPricing split: option.splits)

lemma count_when_visibility_other:
  "t \<noteq> ''Public'' \<Longrightarrow> t \<noteq> ''Preview'' \<Longrightarrow>
     count_list (when_not_default f applyVisibility ts) t = count_list ts t"
  by (simp add: when_not_default_def count_applyVisibility_other split: option.splits)

lemma filter_when_visibility:
  "\<not> P ''Public'' \<Longrightarrow> \<not> P ''Preview'' \<Longrightarrow>
     filter P (when_not_default f applyVisibility ts) = filter P ts"
  by (simp add: when_not_default_def filter_applyVisibility split: option.splits)

lemma when_not_default_idle: "\<not> truthy (not_default f) \<Longrightarrow> when_not_default f F x = x"
  by (cases f) (auto simp: when_not_default_def)

text \<open>The patched text itself is the serialisation of its tokens, single-spaced.\<close>

lemma GalleryFlags_serialised:
  assumes "truthy (not_default (extensionVisibility s)) \<or> truthy (not_default (extensionPricing s))"
  shows "GalleryFlags (patchManifest s m)
           = toString (GalleryFlagsEditor (GalleryFlags (patchManifest s m)))"
proof -
  let ?S = "GalleryFlagsEditor (GalleryFlags m)"
  let ?V = "when_not_default (extensionVisibility s) applyVisibility ?S"
  have cV: "clean_tokens ?V"
    by (simp add: when_not_default_def clean_applyVisibility clean_ctor split: option.splits)
  show ?thesis
  proof (cases "truthy (not_default (extensionPricing s))")
    case True
    then obtain p where p: "extensionPricing s = Some p" "p \<noteq> []" "p \<noteq> ''default''"
      by (auto simp: truthy_not_default)
    have "GalleryFlags (patchManifest s m)
            = toString (applyPricing p (GalleryFlagsEditor
                (when_not_default (extensionVisibility s) editVisibilityFlags (GalleryFlags m))))"
      using p
      by (simp add: GalleryFlags_patchManifest when_not_default_pending editPricingFlags_def)
    then show ?thesis
      by (simp add: ctor_of_toString clean_applyPricing clean_ctor)
  next
    case False
    with assms obtain v where v: "extensionVisibility s = Some v" "v \<noteq> []" "v \<noteq> ''default''"
      by (auto simp: truthy_not_default)
    from False v have "GalleryFlags (patchManifest s m) = toString (applyVisibility v ?S)"
      by (simp add: GalleryFlags_patchManifest when_not_default_pending when_not_default_idle
          editVisibilityFlags_def)
    then show ?thesis
      by (simp add: ctor_of_toString clean_applyVisibility clean_ctor)
  qed
qed

lemma applyVisibility_tokens:
  "applyVisibility v ts =
     (let t1 = (if sublist ''public'' v
                then (if ''Public'' \<in> set ts then ts else ts @ [''Public''])
                else remove1 ''Public'' ts)
      in if sublist ''preview'' v
         then (if ''Preview'' \<in> set t1 then t1 else t1 @ [''Preview''])
         else remove1 ''Preview'' t1)"
  by (simp add: applyVisibility_def Let_def flag_defs addFlag_eq removeFlag_remove1
      str_indexOf_iff)

lemma applyPricing_tokens:
  "applyPricing p ts =
     (let t1 = (if sublist ''free'' p then remove1 ''Paid'' ts else ts)
      in if sublist ''paid'' p
         then (if ''Paid'' \<in> set t1 then t1 else t1 @ [''Paid''])
         else t1)"
  by (simp add: applyPricing_def Let_def flag_defs addFlag_eq removeFlag_remove1
      str_indexOf_iff)

lemma in_set_after_removal: "x \<in> set xs \<longleftrightarrow> count_list xs x \<noteq> 0"
  by (simp add: count_list_0_iff)

text \<open>
  C6, as the code has it. Let a visibility request \<open>v\<close> be pending (non-empty and not
  \<open>"default"\<close>). In the patched \<open>GalleryFlags\<close> the token \<open>Public\<close> is present exactly when
  \<open>v\<close> contains \<open>"public"\<close> or the starting flags held \<open>Public\<close> more than once, since a
  removal deletes one occurrence; likewise \<open>Preview\<close> and \<open>"preview"\<close>. So for starting
  flags that hold each of the two at most once, each is present exactly when requested.
  The tokens other than \<open>Public\<close>, \<open>Preview\<close> and \<open>Paid\<close> are the starting ones, in their
  order, and the patched text is its tokens joined by single spaces. When no pricing
  request is pending the tokens are exactly these: \<open>Public\<close> is appended at the end if
  requested and absent, or its first occurrence is deleted if not requested; then the
  same for \<open>Preview\<close>; so the \<open>Paid\<close> tokens are untouched too.
\<close>

theorem visibility_policy:
  assumes "extensionVisibility s = Some v" and "v \<noteq> []" and "v \<noteq> ''default''"
  shows
    "(''Public'' \<in> set (GalleryFlagsEditor (GalleryFlags (patchManifest s m)))
        \<longleftrightarrow> sublist ''public'' v
              \<or> 2 \<le> count_list (GalleryFlagsEditor (GalleryFlags m)) ''Public'')
     \<and> (''Preview'' \<in> set (GalleryFlagsEditor (GalleryFlags (patchManifest s m)))
        \<longleftrightarrow> sublist ''preview'' v
              \<or> 2 \<le> count_list (GalleryFlagsEditor (GalleryFlags m)) ''Preview'')
     \<and> filter (\<lambda>t. t \<noteq> ''Public'' \<and> t \<noteq> ''Preview'' \<and> t \<noteq> ''Paid'')
          (GalleryFlagsEditor (GalleryFlags (patchManifest s m)))
        = filter (\<lambda>t. t \<noteq> ''Public'' \<and> t \<noteq> ''Preview'' \<and> t \<noteq> ''Paid'')
          (GalleryFlagsEditor (GalleryFlags m))
     \<and> GalleryFlags (patchManifest s m)
        = join_space (GalleryFlagsEditor (GalleryFlags (patchManifest s m)))
     \<and> (\<not> truthy (not_default (extensionPricing s)) \<longrightarrow>
          GalleryFlagsEditor (GalleryFlags (patchManifest s m))
            = (let t0 = GalleryFlagsEditor (GalleryFlags m);
                   t1 = (if sublist ''public'' v
                         then (if ''Public'' \<in> set t0 then t0 else t0 @ [''Public''])
                         else remove1 ''Public'' t0)
               in if sublist ''preview'' v
                  then (if ''Preview'' \<in> set t1 then t1 else t1 @ [''Preview''])
                  else remove1 ''Preview'' t1)
          \<and> filter (\<lambda>t. t \<noteq> ''Public'' \<and> t \<noteq> ''Preview'')
               (GalleryFlagsEditor (GalleryFlags (patchManifest s m)))
             = filter (\<lambda>t. t \<noteq> ''Public'' \<and> t \<noteq> ''Preview'')
               (GalleryFlagsEditor (GalleryFlags m)))"
proof -
  let ?S = "GalleryFlagsEditor (GalleryFlags m)"
  let ?R = "GalleryFlagsEditor (GalleryFlags (patchManifest s m))"
  have R: "?R = when_not_default (extensionPricing s) applyPricing (applyVisibility v ?S)"
    using assms by (rule tokens_visibility_pending)
  have "count_list ?R ''Public'' = count_list (applyVisibility v ?S) ''Public''"
    unfolding R by (simp add: count_when_pricing_other)
  then have pub: "''Public'' \<in> set ?R \<longleftrightarrow> sublist ''public'' v \<or> 2 \<le> count_list ?S ''Public''"
    by (auto simp: in_set_after_removal count_applyVisibility)
  have "count_list ?R ''Preview'' = count_list (applyVisibility v ?S) ''Preview''"
    unfolding R by (simp add: count_when_pricing_other)
  then have pre: "''Preview'' \<in> set ?R \<longleftrightarrow> sublist ''preview'' v \<or> 2 \<le> count_list ?S ''Preview''"
    by (auto simp: in_set_after_removal count_applyVisibility)
  have oth: "filter (\<lambda>t. t \<noteq> ''Public'' \<and> t \<noteq> ''Preview'' \<and> t \<noteq> ''Paid'') ?R
               = filter (\<lambda>t. t \<noteq> ''Public'' \<and> t \<noteq> ''Preview'' \<and> t \<noteq> ''Paid'') ?S"
    unfolding R by (simp add: filter_when_pricing filter_applyVisibility)
  have str: "GalleryFlags (patchManifest s m) = join_space ?R"
    using GalleryFlags_serialised[of s m] assms
    by (simp add: truthy_not_default toString_def)
  have idle: "\<not> truthy (not_default (extensionPricing s)) \<longrightarrow>
                ?R = (let t0 = ?S;
                          t1 = (if sublist ''public'' v
                                then (if ''Public'' \<in> set t0 then t0 else t0 @ [''Public''])
                                else remove1 ''Public'' t0)
                      in if sublist ''preview'' v
                         then (if ''Preview'' \<in> set t1 then t1 else t1 @ [''Preview''])
                         else remove1 ''Preview'' t1)
                \<and> filter (\<lambda>t. t \<noteq> ''Public'' \<and> t \<noteq> ''Preview'') ?R
                  = filter (\<lambda>t. t \<noteq> ''Public'' \<and> t \<noteq> ''Preview'') ?S"
  proof
    assume n: "\<not> truthy (not_default (extensionPricing s))"
    then have "?R = applyVisibility v ?S"
      unfolding R by (simp add: when_not_default_idle)
    then show "?R = (let t0 = ?S;
                          t1 = (if sublist ''public'' v
                                then (if ''Public'' \<in> set t0 then t0 else t0 @ [''Public''])
                                else remove1 ''Public'' t0)
                      in if sublist ''preview'' v
                         then (if ''Preview'' \<in> set t1 then t1 else t1 @ [''Preview''])
                         else remove1 ''Preview'' t1)
                \<and> filter (\<lambda>t. t \<noteq> ''Public'' \<and> t \<noteq> ''Preview'') ?R
                  = filter (\<lambda>t. t \<noteq> ''Public'' \<and> t \<noteq> ''Preview'') ?S"
      by (simp add: filter_applyVisibility) (simp add: applyVisibility_tokens Let_def)
  qed
  from pub pre oth str idle show ?thesis by blast
qed

text \<open>
  The witness is the specification's two examples: flags \<open>"Paid"\<close> with request
  \<open>"private"\<close> give \<open>"Paid"\<close>, and empty flags with request \<open>"publicpreview"\<close> give
  \<open>"Public Preview"\<close>, in that order.
\<close>

theorem visibility_policy_witness:
  "GalleryFlags (patchManifest (example_session\<lparr>extensionVisibility := Some ''private''\<rparr>)
      (example_manifest\<lparr>GalleryFlags := ''Paid''\<rparr>)) = ''Paid''
   \<and> GalleryFlags (patchManifest (example_session\<lparr>extensionVisibility := Some ''publicpreview''\<rparr>)
      (example_manifest\<lparr>GalleryFlags := []\<rparr>)) = ''Public Preview''"
proof -
  let ?s1 = "example_session\<lparr>extensionVisibility := Some ''private''\<rparr>"
  let ?m1 = "example_manifest\<lparr>GalleryFlags := ''Paid''\<rparr>"
  let ?s2 = "example_session\<lparr>extensionVisibility := Some ''publicpreview''\<rparr>"
  let ?m2 = "example_manifest\<lparr>GalleryFlags := []\<rparr>"
  have p: "\<not> truthy (not_default (extensionPricing ?s1))"
    "\<not> truthy (not_default (extensionPricing ?s2))"
    by (simp_all add: example_session_def new_VSIXEditor_def truthy_not_default)
  have subs: "\<not> sublist ''public'' ''private''" "\<not> sublist ''preview'' ''private''"
    "sublist ''public'' ''publicpreview''" "sublist ''preview'' ''publicpreview''"
    by code_simp+
  have S: "GalleryFlagsEditor ''Paid'' = [''Paid'']" "GalleryFlagsEditor [] = []"
    by (simp_all add: GalleryFlagsEditor_def)
  have a: "GalleryFlags (patchManifest ?s1 ?m1) = ''Paid''"
  proof -
    have h: "extensionVisibility ?s1 = Some ''private''" "''private'' \<noteq> []" "''private'' \<noteq> ''default''"
      by simp_all
    note t = visibility_policy[OF h, of ?m1]
    from t have str: "GalleryFlags (patchManifest ?s1 ?m1)
                        = join_space (GalleryFlagsEditor (GalleryFlags (patchManifest ?s1 ?m1)))"
      by blast
    from t p(1) have tok: "join_space (GalleryFlagsEditor (GalleryFlags (patchManifest ?s1 ?m1)))
                        = ''Paid''"
      by (simp add: S subs)
    from str tok show ?thesis by (rule trans)
  qed
  have b: "GalleryFlags (patchManifest ?s2 ?m2) = ''Public Preview''"
  proof -
    have h: "extensionVisibility ?s2 = Some ''publicpreview''" "''publicpreview'' \<noteq> []" "''publicpreview'' \<noteq> ''default''"
      by simp_all
    note t = visibility_policy[OF h, of ?m2]
    from t have str: "GalleryFlags (patchManifest ?s2 ?m2)
                        = join_space (GalleryFlagsEditor (GalleryFlags (patchManifest ?s2 ?m2)))"
      by blast
    from t p(2) have tok: "join_space (GalleryFlagsEditor (GalleryFlags (patchManifest ?s2 ?m2)))
                        = ''Public Preview''"
      by (simp add: S subs)
    from str tok show ?thesis by (rule trans)
  qed
  from a b show ?thesis by blast
qed

text \<open>
  The claim as the specification states it, for every starting \<open>GalleryFlags\<close>, fails on
  a string that repeats a flag: \<open>removeFlag\<close> deletes one occurrence. With flags
  \<open>"Public Public"\<close> and request \<open>"private"\<close>, which does not contain \<open>"public"\<close>, the result
  is \<open>"Public"\<close>.
\<close>

theorem visibility_duplicate_counterexample:
  "\<not> sublist ''public'' ''private''
   \<and> GalleryFlags (patchManifest (example_session\<lparr>extensionVisibility := Some ''private''\<rparr>)
        (example_manifest\<lparr>GalleryFlags := ''Public Public''\<rparr>)) = ''Public''
   \<and> ''Public'' \<in> set (GalleryFlagsEditor (GalleryFlags
        (patchManifest (example_session\<lparr>extensionVisibility := Some ''private''\<rparr>)
           (example_manifest\<lparr>GalleryFlags := ''Public Public''\<rparr>))))"
  by code_simp

text \<open>
  C7, as the code has it. Let a pricing request \<open>p\<close> be pending (non-empty and not
  \<open>"default"\<close>). If \<open>p\<close> contains \<open>"paid"\<close>, \<open>Paid\<close> is present in the patched \<open>GalleryFlags\<close>.
  If \<open>p\<close> contains \<open>"free"\<close> and not \<open>"paid"\<close>, one occurrence of \<open>Paid\<close> is deleted, so
  \<open>Paid\<close> is still present exactly when the starting flags held it more than once, and
  absent when they held it at most once. If \<open>p\<close> contains neither, \<open>Paid\<close> occurs as often
  as before. The tokens other than \<open>Public\<close>, \<open>Preview\<close> and \<open>Paid\<close> are the starting ones,
  in their order, and the patched text is its tokens joined by single spaces. When no
  visibility request is pending the tokens are exactly these: the first occurrence of
  \<open>Paid\<close> is deleted if \<open>p\<close> contains \<open>"free"\<close>; then \<open>Paid\<close> is appended at the end if \<open>p\<close>
  contains \<open>"paid"\<close> and \<open>Paid\<close> is absent; nothing else changes, so with neither substring
  the token list is the starting one.
\<close>

theorem pricing_policy:
  assumes "extensionPricing s = Some p" and "p \<noteq> []" and "p \<noteq> ''default''"
  shows
    "(sublist ''paid'' p \<longrightarrow>
        ''Paid'' \<in> set (GalleryFlagsEditor (GalleryFlags (patchManifest s m))))
     \<and> (sublist ''free'' p \<and> \<not> sublist ''paid'' p \<longrightarrow>
        count_list (GalleryFlagsEditor (GalleryFlags (patchManifest s m))) ''Paid''
          = count_list (GalleryFlagsEditor (GalleryFlags m)) ''Paid'' - 1
        \<and> (''Paid'' \<in> set (GalleryFlagsEditor (GalleryFlags (patchManifest s m)))
             \<longleftrightarrow> 2 \<le> count_list (GalleryFlagsEditor (GalleryFlags m)) ''Paid''))
     \<and> (\<not> sublist ''free'' p \<and> \<not> sublist ''paid'' p \<longrightarrow>
        count_list (GalleryFlagsEditor (GalleryFlags (patchManifest s m))) ''Paid''
          = count_list (GalleryFlagsEditor (GalleryFlags m)) ''Paid'')
     \<and> filter (\<lambda>t. t \<noteq> ''Public'' \<and> t \<noteq> ''Preview'' \<and> t \<noteq> ''Paid'')
          (GalleryFlagsEditor (GalleryFlags (patchManifest s m)))
        = filter (\<lambda>t. t \<noteq> ''Public'' \<and> t \<noteq> ''Preview'' \<and> t \<noteq> ''Paid'')
          (GalleryFlagsEditor (GalleryFlags m))
     \<and> GalleryFlags (patchManifest s m)
        = join_space (GalleryFlagsEditor (GalleryFlags (patchManifest s m)))
     \<and> (\<not> truthy (not_default (extensionVisibility s)) \<longrightarrow>
          GalleryFlagsEditor (GalleryFlags (patchManifest s m))
            = (let t0 = GalleryFlagsEditor (GalleryFlags m);
                   t1 = (if sublist ''free'' p then remove1 ''Paid'' t0 else t0)
               in if sublist ''paid'' p
                  then (if ''Paid'' \<in> set t1 then t1 else t1 @ [''Paid''])
                  else t1)
          \<and> filter (\<lambda>t. t \<noteq> ''Paid'') (GalleryFlagsEditor (GalleryFlags (patchManifest s m)))
            = filter (\<lambda>t. t \<noteq> ''Paid'') (GalleryFlagsEditor (GalleryFlags m))
          \<and> (\<not> sublist ''free'' p \<and> \<not> sublist ''paid'' p \<longrightarrow>
               GalleryFlagsEditor (GalleryFlags (patchManifest s m))
                 = GalleryFlagsEditor (GalleryFlags m)))"
proof -
  let ?S = "GalleryFlagsEditor (GalleryFlags m)"
  let ?V = "when_not_default (extensionVisibility s) applyVisibility ?S"
  let ?R = "GalleryFlagsEditor (GalleryFlags (patchManifest s m))"
  have R: "?R = applyPricing p ?V"
    using assms by (rule tokens_pricing_pending)
  have V: "count_list ?V ''Paid'' = count_list ?S ''Paid''"
    by (simp add: count_when_visibility_other)
  have paid: "sublist ''paid'' p \<longrightarrow> ''Paid'' \<in> set ?R"
    unfolding R by (simp add: applyPricing_cases)
  have free: "sublist ''free'' p \<and> \<not> sublist ''paid'' p \<longrightarrow>
                count_list ?R ''Paid'' = count_list ?S ''Paid'' - 1
                \<and> (''Paid'' \<in> set ?R \<longleftrightarrow> 2 \<le> count_list ?S ''Paid'')"
    unfolding R using V by (auto simp: in_set_after_removal applyPricing_cases)
  have neither: "\<not> sublist ''free'' p \<and> \<not> sublist ''paid'' p \<longrightarrow>
                   count_list ?R ''Paid'' = count_list ?S ''Paid''"
    unfolding R using V by (simp add: applyPricing_cases)
  have oth: "filter (\<lambda>t. t \<noteq> ''Public'' \<and> t \<noteq> ''Preview'' \<and> t \<noteq> ''Paid'') ?R
               = filter (\<lambda>t. t \<noteq> ''Public'' \<and> t \<noteq> ''Preview'' \<and> t \<noteq> ''Paid'') ?S"
    unfolding R by (simp add: filter_applyPricing filter_when_visibility)
  have str: "GalleryFlags (patchManifest s m) = join_space ?R"
    using GalleryFlags_serialised[of s m] assms
    by (simp add: truthy_not_default toString_def)
  have idle: "\<not> truthy (not_default (extensionVisibility s)) \<longrightarrow>
                ?R = (let t0 = ?S;
                          t1 = (if sublist ''free'' p then remove1 ''Paid'' t0 else t0)
                      in if sublist ''paid'' p
                         then (if ''Paid'' \<in> set t1 then t1 else t1 @ [''Paid''])
                         else t1)
                \<and> filter (\<lambda>t. t \<noteq> ''Paid'') ?R = filter (\<lambda>t. t \<noteq> ''Paid'') ?S
                \<and> (\<not> sublist ''free'' p \<and> \<not> sublist ''paid'' p \<longrightarrow> ?R = ?S)"
  proof
    assume n: "\<not> truthy (not_default (extensionVisibility s))"
    then have RS: "?R = applyPricing p ?S"
      unfolding R by (simp add: when_not_default_idle)
    have e: "applyPricing p ?S
               = (let t0 = ?S;
                      t1 = (if sublist ''free'' p then remove1 ''Paid'' t0 else t0)
                  in if sublist ''paid'' p
                     then (if ''Paid'' \<in> set t1 then t1 else t1 @ [''Paid''])
                     else t1)"
      by (simp add: applyPricing_tokens Let_def)
    have f: "filter (\<lambda>t. t \<noteq> ''Paid'') (applyPricing p ?S) = filter (\<lambda>t. t \<noteq> ''Paid'') ?S"
      by (simp add: filter_applyPricing)
    have g: "\<not> sublist ''free'' p \<and> \<not> sublist ''paid'' p \<longrightarrow> applyPricing p ?S = ?S"
      by (simp add: applyPricing_cases)
    show "?R = (let t0 = ?S;
                          t1 = (if sublist ''free'' p then remove1 ''Paid'' t0 else t0)
                      in if sublist ''paid'' p
                         then (if ''Paid'' \<in> set t1 then t1 else t1 @ [''Paid''])
                         else t1)
                \<and> filter (\<lambda>t. t \<noteq> ''Paid'') ?R = filter (\<lambda>t. t \<noteq> ''Paid'') ?S
                \<and> (\<not> sublist ''free'' p \<and> \<not> sublist ''paid'' p \<longrightarrow> ?R = ?S)"
      unfolding RS using e f g by blast
  qed
  from paid free neither oth str idle show ?thesis by blast
qed

text \<open>
  The witness is the specification's two examples, and a request with neither substring:
  flags \<open>"Public Paid"\<close> with request \<open>"free"\<close> give \<open>"Public"\<close>, flags \<open>"Public"\<close> with
  request \<open>"paid"\<close> give \<open>"Public Paid"\<close>, and flags \<open>"Public Paid"\<close> with request \<open>"trial"\<close>
  stay \<open>"Public Paid"\<close>.
\<close>

theorem pricing_policy_witness:
  "GalleryFlags (patchManifest (example_session\<lparr>extensionPricing := Some ''free''\<rparr>)
      (example_manifest\<lparr>GalleryFlags := ''Public Paid''\<rparr>)) = ''Public''
   \<and> GalleryFlags (patchManifest (example_session\<lparr>extensionPricing := Some ''paid''\<rparr>)
      (example_manifest\<lparr>GalleryFlags := ''Public''\<rparr>)) = ''Public Paid''
   \<and> GalleryFlags (patchManifest (example_session\<lparr>extensionPricing := Some ''trial''\<rparr>)
      (example_manifest\<lparr>GalleryFlags := ''Public Paid''\<rparr>)) = ''Public Paid''"
proof -
  let ?paid = "example_session\<lparr>extensionPricing := Some ''paid''\<rparr>"
  let ?free = "example_session\<lparr>extensionPricing := Some ''free''\<rparr>"
  let ?trial = "example_session\<lparr>extensionPricing := Some ''trial''\<rparr>"
  let ?m1 = "example_manifest\<lparr>GalleryFlags := ''Public''\<rparr>"
  let ?m2 = "example_manifest\<lparr>GalleryFlags := ''Public Paid''\<rparr>"
  have subs: "sublist ''paid'' ''paid''" "sublist ''free'' ''free''"
    "\<not> sublist ''paid'' ''free''" "\<not> sublist ''free'' ''paid''"
    "\<not> sublist ''free'' ''trial''" "\<not> sublist ''paid'' ''trial''"
    by code_simp+
  have vis: "\<not> truthy (not_default (extensionVisibility ?paid))"
    "\<not> truthy (not_default (extensionVisibility ?free))"
    "\<not> truthy (not_default (extensionVisibility ?trial))"
    by (simp_all add: example_session_def new_VSIXEditor_def truthy_not_default)
  have S: "GalleryFlagsEditor ''Public'' = [''Public'']"
    "GalleryFlagsEditor ''Public Paid'' = [''Public'', ''Paid'']"
    by (simp_all add: GalleryFlagsEditor_def)
  have a: "GalleryFlags (patchManifest ?free ?m2) = ''Public''"
  proof -
    have h: "extensionPricing ?free = Some ''free''" "''free'' \<noteq> []" "''free'' \<noteq> ''default''"
      by simp_all
    note t = pricing_policy[OF h, of ?m2]
    from t have str: "GalleryFlags (patchManifest ?free ?m2)
                        = join_space (GalleryFlagsEditor (GalleryFlags (patchManifest ?free ?m2)))"
      by blast
    from t vis(2) have tok: "join_space (GalleryFlagsEditor (GalleryFlags (patchManifest ?free ?m2)))
                        = ''Public''"
      by (simp add: S subs)
    from str tok show ?thesis by (rule trans)
  qed
  have b: "GalleryFlags (patchManifest ?paid ?m1) = ''Public Paid''"
  proof -
    have h: "extensionPricing ?paid = Some ''paid''" "''paid'' \<noteq> []" "''paid'' \<noteq> ''default''"
      by simp_all
    note t = pricing_policy[OF h, of ?m1]
    from t have str: "GalleryFlags (patchManifest ?paid ?m1)
                        = join_space (GalleryFlagsEditor (GalleryFlags (patchManifest ?paid ?m1)))"
      by blast
    from t vis(1) have tok: "join_space (GalleryFlagsEditor (GalleryFlags (patchManifest ?paid ?m1)))
                        = ''Public Paid''"
      by (simp add: S subs)
    from str tok show ?thesis by (rule trans)
  qed
  have c: "GalleryFlags (patchManifest ?trial ?m2) = ''Public Paid''"
  proof -
    have h: "extensionPricing ?trial = Some ''trial''" "''trial'' \<noteq> []" "''trial'' \<noteq> ''default''"
      by simp_all
    note t = pricing_policy[OF h, of ?m2]
    from t have str: "GalleryFlags (patchManifest ?trial ?m2)
                        = join_space (GalleryFlagsEditor (GalleryFlags (patchManifest ?trial ?m2)))"
      by blast
    from t vis(3) have tok: "join_space (GalleryFlagsEditor (GalleryFlags (patchManifest ?trial ?m2)))
                        = ''Public Paid''"
      by (simp add: S subs)
    from str tok show ?thesis by (rule trans)
  qed
  from a b c show ?thesis by blast
qed

text \<open>
  The claim as the specification states it, for every starting \<open>GalleryFlags\<close>, fails on
  a string that repeats \<open>Paid\<close>: with flags \<open>"Paid Paid"\<close> and request \<open>"free"\<close>, which
  contains \<open>"free"\<close> and not \<open>"paid"\<close>, the result is \<open>"Paid"\<close>; the flag is still there.
\<close>

theorem pricing_duplicate_counterexample:
  "sublist ''free'' ''free'' \<and> \<not> sublist ''paid'' ''free''
   \<and> GalleryFlags (patchManifest (example_session\<lparr>extensionPricing := Some ''free''\<rparr>)
        (example_manifest\<lparr>GalleryFlags := ''Paid Paid''\<rparr>)) = ''Paid''
   \<and> ''Paid'' \<in> set (GalleryFlagsEditor (GalleryFlags
        (patchManifest (example_session\<lparr>extensionPricing := Some ''free''\<rparr>)
           (example_manifest\<lparr>GalleryFlags := ''Paid Paid''\<rparr>))))"
  by code_simp

section \<open>The working directory\<close>

lemma io_then_apply:
  "io_then m k w = (case m w of (Inl e, w') \<Rightarrow> (Inl e, w') | (Inr x, w') \<Rightarrow> k w')"
  by (simp add: io_then_def io_bind_def)

lemma io_bind_tl_cwd: "io_bind tl_cwd f w = f (cwd w) w"
  by (simp add: io_bind_def tl_cwd_def)

lemma io_then_assoc: "io_then (io_then a b) c = io_then a (io_then b c)"
  by (rule ext) (simp add: io_then_def io_bind_def split: prod.splits sum.splits)

lemma io_then_bind_assoc: "io_bind (io_then a b) f = io_then a (io_bind b f)"
  by (rule ext) (simp add: io_then_def io_bind_def split: prod.splits sum.splits)

lemma stays_basic:
  "cwd_stays D (ret x)" "cwd_stays D (throw e)" "cwd_stays D (may_throw r)"
  "cwd_stays D (of_result q)" "cwd_stays D (emit ev)" "cwd_stays D tl_cwd"
  by (auto simp: cwd_stays_def ret_def throw_def may_throw_def of_result_def emit_def
      tl_cwd_def split: option.splits sum.splits)

lemma stays_bind:
  "cwd_stays D m \<Longrightarrow> (\<And>x. cwd_stays D (f x)) \<Longrightarrow> cwd_stays D (io_bind m f)"
  unfolding cwd_stays_def io_bind_def
  by (auto split: prod.splits sum.splits)

lemma stays_then: "cwd_stays D m \<Longrightarrow> cwd_stays D k \<Longrightarrow> cwd_stays D (io_then m k)"
  by (simp add: io_then_def stays_bind)

lemma stays_if: "cwd_stays D a \<Longrightarrow> cwd_stays D b \<Longrightarrow> cwd_stays D (if c then a else b)"
  by simp

lemma stays_set_cwd: "p \<in> D \<Longrightarrow> cwd_stays D (set_cwd p)"
  by (simp add: cwd_stays_def set_cwd_def)

lemma stays_tl_cd: "p \<in> D \<Longrightarrow> cwd_stays D (tl_cd E p)"
  by (simp add: tl_cd_def stays_then stays_basic stays_set_cwd)

lemma stays_tl_cp: "cwd_stays D (tl_cp E a b c)"
  by (simp add: tl_cp_def stays_then stays_basic)

lemma stays_zip_execSync: "cwd_stays D (zip_execSync E tool args)"
  by (simp add: zip_execSync_def stays_then stays_bind stays_basic)

lemmas stays_intros = stays_basic stays_bind stays_then stays_if stays_tl_cd stays_tl_cp
  stays_zip_execSync

text \<open>The save-and-restore frame of both archive steps.\<close>

lemma restore_cwd:
  assumes "\<And>c. cwd_stays {c} (M c)"
  shows "cwd (snd (io_bind tl_cwd (\<lambda>c. io_then (M c) (tl_cd E c)) w)) = cwd w"
proof -
  have "cwd_stays {cwd w} (io_then (M (cwd w)) (tl_cd E (cwd w)))"
    by (intro stays_then stays_tl_cd assms) simp
  then show ?thesis by (simp add: io_bind_tl_cwd cwd_stays_def)
qed

lemma returned_cwd:
  assumes "fst (io_bind tl_cwd (\<lambda>c. io_then (M c) (tl_cd E c)) w) = Inr u"
  shows "cwd (snd (io_bind tl_cwd (\<lambda>c. io_then (M c) (tl_cd E c)) w)) = cwd w"
  using assms
  by (auto simp: io_bind_tl_cwd io_then_apply tl_cd_def emit_def may_throw_def set_cwd_def
      io_apply split: prod.splits sum.splits option.splits)

lemma extractArchive_cwd: "cwd (snd (extractArchive E vsix tmpPath w)) = cwd w"
  unfolding extractArchive_def by (rule restore_cwd) (intro stays_intros)

lemma createArchive_cwd_returned:
  "fst (createArchive E originalVsix tmpPath targetVsix w) = Inr u \<Longrightarrow>
     cwd (snd (createArchive E originalVsix tmpPath targetVsix w)) = cwd w"
  unfolding createArchive_def io_then_assoc[symmetric] by (rule returned_cwd)

lemma createArchive_cwd_Windows:
  assumes "getPlatform E = Windows"
  shows "cwd (snd (createArchive E originalVsix tmpPath targetVsix w)) = cwd w"
  unfolding createArchive_def io_then_assoc[symmetric]
proof (rule restore_cwd)
  fix c
  show "cwd_stays {c}
          (io_then (if originalVsix \<noteq> targetVsix then tl_cp E originalVsix targetVsix ''-f''
                    else ret ())
             (if getPlatform E = Windows then
                io_then (may_throw (import_7zip E))
                  (zip_execSync E (module_path7za E)
                     [''u'', targetVsix, path_join E tmpPath [CHR 0x5C, CHR ''*''],
                      ''-r'', ''-y'', ''-tzip'', ''-mx9'', ''-bd''])
              else
                io_bind (of_result (which E ''zip'')) (\<lambda>tool.
                io_then (tl_cd E tmpPath)
                  (zip_execSync E tool
                     [path_join E c targetVsix, ''.'', ''-r'', ''-9'', ''-f'']))))"
    by (simp only: assms simp_thms if_True) (intro stays_intros)
qed

lemma createArchive_cwd_range:
  "cwd (snd (createArchive E originalVsix tmpPath targetVsix w)) \<in> {cwd w, tmpPath}"
proof -
  have "cwd_stays {cwd w, tmpPath}
          (io_then (if originalVsix \<noteq> targetVsix then tl_cp E originalVsix targetVsix ''-f''
                    else ret ())
            (io_then
               (if getPlatform E = Windows then
                  io_then (may_throw (import_7zip E))
                    (zip_execSync E (module_path7za E)
                       [''u'', targetVsix, path_join E tmpPath [CHR 0x5C, CHR ''*''],
                        ''-r'', ''-y'', ''-tzip'', ''-mx9'', ''-bd''])
                else
                  io_bind (of_result (which E ''zip'')) (\<lambda>tool.
                  io_then (tl_cd E tmpPath)
                    (zip_execSync E tool
                       [path_join E (cwd w) targetVsix, ''.'', ''-r'', ''-9'', ''-f''])))
               (tl_cd E (cwd w))))"
    by (intro stays_intros) simp_all
  then show ?thesis
    unfolding createArchive_def io_bind_tl_cwd by (simp add: cwd_stays_def)
qed

text \<open>
  Every failure inside the compression step happens before the working directory is
  changed (the copy, the import, the lookup of the tool, \<open>tl.cd(tmpPath)\<close> itself), and
  the tool invocation returns: so the step reaches its last statement \<open>tl.cd(cwd)\<close> with
  the directory changed, or ends with the directory as it was.
\<close>

lemma createArchive_cwd_restored:
  assumes "cd E (cwd w) = None"
  shows "cwd (snd (createArchive E originalVsix tmpPath targetVsix w)) = cwd w"
  unfolding createArchive_def io_bind_tl_cwd
  using assms
  by (auto simp: io_then_apply io_bind_def tl_cd_def tl_cp_def zip_execSync_def emit_def
      may_throw_def of_result_def set_cwd_def tl_cwd_def io_apply
      split: prod.splits sum.splits option.splits)

text \<open>
  C5. The extraction step leaves the working directory at its pre-invocation value on
  every exit path: normal return, whether the tool succeeded or failed (its exit code is
  ignored), and every exception (import rejected, tool not found, \<open>tl.cd\<close> refused). So
  does the compression step, including with a failing tool or a failed copy, as long as
  the pre-invocation directory can still be entered by the final \<open>tl.cd(cwd)\<close>. In
  particular it is restored whenever the compression step returns normally, and on
  Windows always; in every case the working directory afterwards is the pre-invocation
  one or the scratch directory.
\<close>

theorem archive_steps_cwd:
  "cwd (snd (extractArchive E vsix tmpPath w)) = cwd w
   \<and> (cd E (cwd w) = None
        \<longrightarrow> cwd (snd (createArchive E originalVsix tmpPath targetVsix w)) = cwd w)
   \<and> (fst (createArchive E originalVsix tmpPath targetVsix w) = Inr ()
        \<longrightarrow> cwd (snd (createArchive E originalVsix tmpPath targetVsix w)) = cwd w)
   \<and> (getPlatform E = Windows
        \<longrightarrow> cwd (snd (createArchive E originalVsix tmpPath targetVsix w)) = cwd w)
   \<and> cwd (snd (createArchive E originalVsix tmpPath targetVsix w)) \<in> {cwd w, tmpPath}"
  by (intro conjI impI;
      (rule extractArchive_cwd createArchive_cwd_range
       | erule createArchive_cwd_restored createArchive_cwd_returned
           createArchive_cwd_Windows))

theorem archive_steps_cwd_witness:
  "execSync example_env_zip_fails ''/usr/bin/zip''
      [''/work/out.vsix'', ''.'', ''-r'', ''-9'', ''-f''] ''/tmp/vsixeditor'' = 12
   \<and> trace (snd (createArchive example_env_zip_fails ''in.vsix'' ''/tmp/vsixeditor'' ''out.vsix''
        example_world))
       = [Cp ''in.vsix'' ''out.vsix'' ''-f'', Cd ''/tmp/vsixeditor'',
          ExecSync ''/usr/bin/zip'' [''/work/out.vsix'', ''.'', ''-r'', ''-9'', ''-f''],
          Cd ''/work'']
   \<and> cwd (snd (createArchive example_env_zip_fails ''in.vsix'' ''/tmp/vsixeditor'' ''out.vsix''
        example_world)) = ''/work''
   \<and> cwd (snd (createArchive (example_env\<lparr>getPlatform := Windows\<rparr>) ''in.vsix''
         ''/tmp/vsixeditor'' ''out.vsix'' example_world)) = ''/work''"
proof -
  have run: "execSync example_env_zip_fails ''/usr/bin/zip''
      [''/work/out.vsix'', ''.'', ''-r'', ''-9'', ''-f''] ''/tmp/vsixeditor'' = 12"
    "trace (snd (createArchive example_env_zip_fails ''in.vsix'' ''/tmp/vsixeditor'' ''out.vsix''
        example_world))
       = [Cp ''in.vsix'' ''out.vsix'' ''-f'', Cd ''/tmp/vsixeditor'',
          ExecSync ''/usr/bin/zip'' [''/work/out.vsix'', ''.'', ''-r'', ''-9'', ''-f''],
          Cd ''/work'']"
    by code_simp+
  have enter: "cd example_env_zip_fails (cwd example_world) = None"
    by (simp add: example_env_zip_fails_def example_env_def)
  have r: "fst (createArchive example_env_zip_fails ''in.vsix'' ''/tmp/vsixeditor'' ''out.vsix''
             example_world) = Inr ()"
    by code_simp
  have p: "getPlatform (example_env\<lparr>getPlatform := Windows\<rparr>) = Windows"
    by simp
  have c: "cwd example_world = ''/work''"
    by (simp add: example_world_def)
  from run enter r p c
    archive_steps_cwd[where E = example_env_zip_fails and w = example_world
      and vsix = "''in.vsix''" and originalVsix = "''in.vsix''"
      and tmpPath = "''/tmp/vsixeditor''" and targetVsix = "''out.vsix''"]
    archive_steps_cwd[where E = "example_env\<lparr>getPlatform := Windows\<rparr>" and w = example_world
      and vsix = "''in.vsix''" and originalVsix = "''in.vsix''"
      and tmpPath = "''/tmp/vsixeditor''" and targetVsix = "''out.vsix''"]
  show ?thesis by simp
qed

section \<open>The nested task-manifest update\<close>

lemma updates_append: "updates (t @ [ev]) = updates t + (if is_update ev then 1 else 0)"
  by (simp add: updates_def)

lemma adds_basic:
  "adds_updates 0 (ret x)" "adds_updates 0 (throw e)" "adds_updates 0 (may_throw r)"
  "adds_updates 0 (of_result q)" "adds_updates 0 tl_cwd" "adds_updates 0 (set_cwd p)"
  by (auto simp: adds_updates_def ret_def throw_def may_throw_def of_result_def tl_cwd_def
      set_cwd_def split: option.splits sum.splits)

lemma adds_emit: "adds_updates (if is_update ev then 1 else 0) (emit ev)"
  by (simp add: adds_updates_def emit_def updates_append)

lemma adds_emit_other: "\<not> is_update ev \<Longrightarrow> adds_updates 0 (emit ev)"
  using adds_emit[of ev] by simp

text \<open>A computation that adds \<open>n\<close> updates, followed by one that adds none, adds \<open>n\<close>.\<close>

lemma adds_bind:
  "adds_updates n m \<Longrightarrow> (\<And>x. adds_updates 0 (f x)) \<Longrightarrow> adds_updates n (io_bind m f)"
  unfolding adds_updates_def io_bind_def
  by (auto split: prod.splits sum.splits) (metis add.right_neutral snd_conv)+

lemma adds_then: "adds_updates n m \<Longrightarrow> adds_updates 0 k \<Longrightarrow> adds_updates n (io_then m k)"
  by (simp add: io_then_def adds_bind)

lemma adds_if:
  "adds_updates n a \<Longrightarrow> adds_updates n b \<Longrightarrow> adds_updates n (if c then a else b)"
  by simp

lemma adds_Let: "(\<And>x. adds_updates n (f x)) \<Longrightarrow> adds_updates n (Let v f)"
  by (simp add: Let_def)

lemma adds_calls:
  "adds_updates 0 (tl_cd E p)" "adds_updates 0 (tl_cp E a b c)"
  "adds_updates 0 (zip_execSync E tool args)" "adds_updates 0 (temp_mkdir E affix)"
  "adds_updates 0 (fse_writeFile E p d)"
  by (simp_all add: tl_cd_def tl_cp_def zip_execSync_def temp_mkdir_def fse_writeFile_def
      adds_then adds_bind adds_basic adds_emit_other)

lemma adds_check: "adds_updates 1 (common_checkUpdateTasksManifests E p)"
  unfolding common_checkUpdateTasksManifests_def
  using adds_then[OF adds_emit[of "CheckUpdateTasksManifests p"] adds_basic(3)] by simp

lemmas adds_intros = adds_basic adds_calls adds_bind adds_then adds_if adds_Let

lemma adds_extractArchive: "adds_updates 0 (extractArchive E vsix tmpPath)"
  unfolding extractArchive_def by (intro adds_intros)

lemma adds_createArchive: "adds_updates 0 (createArchive E originalVsix tmpPath targetVsix)"
  unfolding createArchive_def by (intro adds_intros)

lemma adds_editVsixManifest: "adds_updates 0 (editVsixManifest E s dirPath)"
  unfolding editVsixManifest_def by (intro adds_intros)

text \<open>
  A prefix that adds no update and may throw, a step after it that adds none either, and
  a rest that adds \<open>c\<close>: the rest runs exactly when prefix and step return.
\<close>

lemma adds_after_prefix:
  assumes "adds_updates 0 pre" and "\<And>d. adds_updates 0 (X d)" and "\<And>d. adds_updates c (K d)"
  shows "updates (trace (snd (io_bind pre (\<lambda>d. io_then (X d) (K d)) w)))
           = updates (trace w)
             + (if (case io_bind pre X w of (Inl e, w') \<Rightarrow> False | (Inr u, w') \<Rightarrow> True)
                then c else 0)"
proof (cases "pre w")
  case (Pair r w1)
  from assms(1) Pair have u1: "updates (trace w1) = updates (trace w)"
    by (auto simp: adds_updates_def dest: spec[of _ w])
  show ?thesis
  proof (cases r)
    case (Inl e)
    with Pair u1 show ?thesis by (simp add: io_bind_def)
  next
    case (Inr d)
    obtain r2 w2 where x: "X d w1 = (r2, w2)" by (cases "X d w1")
    from assms(2)[of d] x have u2: "updates (trace w2) = updates (trace w1)"
      by (auto simp: adds_updates_def dest: spec[of _ w1])
    show ?thesis
    proof (cases r2)
      case (Inl e)
      with Pair Inr x u1 u2 show ?thesis by (simp add: io_bind_def io_then_def)
    next
      case (Inr u)
      from assms(3)[of d] have "updates (trace (snd (K d w2))) = updates (trace w2) + c"
        by (simp add: adds_updates_def)
      with Pair \<open>r = Inr d\<close> Inr x u1 u2 show ?thesis by (simp add: io_bind_def io_then_def)
    qed
  qed
qed

lemma updateTasks_condition_iff:
  "truthy (updateTasks_condition s) \<longleftrightarrow>
     ((\<exists>v. versionNumber s = Some v \<and> v \<noteq> []) \<and> updateTasksVersion s) \<or> updateTasksId s"
  by (simp add: updateTasks_condition_def truthy_js_or truthy_js_and truthy_field)

lemma endEdit_updates:
  assumes "edit s" and "truthy (hasEdits s)"
  shows "updates (trace (snd (endEdit E s w)))
           = updates (trace w)
             + (if extraction_returns E s w \<and> truthy (updateTasks_condition s) then 1 else 0)"
proof -
  let ?c = "if truthy (updateTasks_condition s) then 1 else 0 :: nat"
  let ?pre = "io_then (emit TempTrack) (temp_mkdir E ''vsixeditor'')"
  let ?X = "extractArchive E (inputFile s)"
  let ?K = "\<lambda>dirPath.
     io_then
       (if truthy (updateTasks_condition s)
        then common_checkUpdateTasksManifests E (path_join E dirPath ''extension.vsomanifest'')
        else ret ())
       (io_bind (editVsixManifest E s dirPath) (\<lambda>manifestData.
          let name = fst (createOutputFilePath E manifestData (outputPath s));
              manifestData1 = manifestData\<lparr>outputFileName := Some name\<rparr>
          in io_then (createArchive E (inputFile s) (md_dirPath manifestData1) name)
               (ret name)))"
  have e: "endEdit E s = io_bind ?pre (\<lambda>d. io_then (?X d) (?K d))"
    using assms
    by (simp add: endEdit_def validateEditMode_def of_result_def io_simps io_then_bind_assoc)
  have x: "extraction_returns E s w
             = (case io_bind ?pre ?X w of (Inl e, w') \<Rightarrow> False | (Inr u, w') \<Rightarrow> True)"
    by (simp add: extraction_returns_def io_then_bind_assoc)
  have pre: "adds_updates 0 ?pre"
    by (intro adds_intros adds_emit_other) simp
  have K: "adds_updates ?c (?K d)" for d
  proof (cases "truthy (updateTasks_condition s)")
    case True
    then show ?thesis
      by (simp only: if_True)
         (intro adds_then adds_check adds_bind adds_Let adds_createArchive adds_editVsixManifest
           adds_basic)
  next
    case False
    then show ?thesis
      by (simp only: if_False)
         (intro adds_then adds_bind adds_Let adds_createArchive adds_editVsixManifest
           adds_basic)
  qed
  show ?thesis
    unfolding e x
    using adds_after_prefix[of ?pre ?X ?c ?K w, OF pre adds_extractArchive K]
    by (simp split: if_splits)
qed

text \<open>
  C8. Let \<open>endEdit\<close> run on a started session with pending edits. When the scratch
  directory is allocated and the extraction returns, the nested task-manifest update is
  called once if a version edit is pending and \<open>updateTasksVersion\<close> is true, or if
  \<open>updateTasksId\<close> is true, and not at all otherwise: \<open>updateTasksId\<close> alone triggers it
  whatever \<open>updateTasksVersion\<close> is. When the run fails before that point, it is not called.
\<close>

theorem nested_update_gate:
  assumes "edit s" and "truthy (hasEdits s)"
  shows
    "(extraction_returns E s w \<longrightarrow>
        updates (trace (snd (endEdit E s w)))
          = updates (trace w)
            + (if ((\<exists>v. versionNumber s = Some v \<and> v \<noteq> []) \<and> updateTasksVersion s)
                   \<or> updateTasksId s
               then 1 else 0))
     \<and> (\<not> extraction_returns E s w \<longrightarrow>
        updates (trace (snd (endEdit E s w))) = updates (trace w))"
  using endEdit_updates[OF assms, of E w] by (simp add: updateTasks_condition_iff)
theorem nested_update_gate_witness:
  "updates (trace (snd (endEdit example_env
      (example_session\<lparr>versionNumber := Some ''2.0''\<rparr>) example_world))) = 1
   \<and> updates (trace (snd (endEdit example_env
      (example_session\<lparr>versionNumber := Some ''2.0'', updateTasksVersion := False\<rparr>)
      example_world))) = 0
   \<and> updates (trace (snd (endEdit (example_env\<lparr>mkdir := (\<lambda>a. Inl (Error ''no space''))\<rparr>)
      (example_session\<lparr>versionNumber := Some ''2.0''\<rparr>) example_world))) = 0"
proof -
  let ?on = "example_session\<lparr>versionNumber := Some ''2.0''\<rparr>"
  let ?off = "example_session\<lparr>versionNumber := Some ''2.0'', updateTasksVersion := False\<rparr>"
  let ?full = "example_env\<lparr>mkdir := (\<lambda>a. Inl (Error ''no space''))\<rparr>"
  have started: "edit ?on" "edit ?off"
    by (simp_all add: example_session_facts)
  have pending: "truthy (hasEdits ?on)" "truthy (hasEdits ?off)"
    by (simp_all add: hasEdits_truthy)
  have reached: "extraction_returns example_env ?on example_world"
    "extraction_returns example_env ?off example_world"
    "\<not> extraction_returns ?full ?on example_world"
    by code_simp+
  have fields: "versionNumber ?on = Some ''2.0''" "updateTasksVersion ?on"
    "\<not> updateTasksVersion ?off" "\<not> updateTasksId ?off"
    "updates (trace example_world) = 0"
    by (simp_all add: example_session_def new_VSIXEditor_def example_world_def updates_def)
  have a: "updates (trace (snd (endEdit example_env ?on example_world))) = 1"
    using nested_update_gate[OF started(1) pending(1), of example_env example_world]
      reached(1) fields
    by simp
  have b: "updates (trace (snd (endEdit example_env ?off example_world))) = 0"
    using nested_update_gate[OF started(2) pending(2), of example_env example_world]
      reached(2) fields
    by simp
  have c: "updates (trace (snd (endEdit ?full ?on example_world))) = 0"
    using nested_update_gate[OF started(1) pending(1), of ?full example_world]
      reached(3) fields
    by simp
  from a b c show ?thesis by blast
qed

section \<open>The returned file name\<close>

text \<open>
  Whatever the output directory holds, the name returned is the one without generation
  number: the names the probe computes stay inside the closure.
\<close>

lemma createOutputFilePath_returns:
  "fst (createOutputFilePath E md outPath)
     = md_publisher md @ ''.'' @ md_id md @ ''-'' @ md_version md @ ''.gen.vsix''"
  by (simp add: createOutputFilePath_def gen_fileName_def Let_def)

lemma probe_logs_gen01:
  "updateFileName example_env_taken example_data ''out'' ''Acme.Tool-1.0.0.gen.vsix'' 0
     = Some ''Acme.Tool-1.0.0.gen01.vsix''"
  apply (subst updateFileName.simps)
  apply (simp add: example_env_taken_def example_env_def)
  apply (subst updateFileName.simps)
  apply (simp add: gen_fileName_def example_data_def padStart2_def digit_char_def
      nat_toString.simps[of 1] nat_toString.simps[of "Suc 0"])
  done

text \<open>
  C1 at the specification's example: publisher \<open>Acme\<close>, id \<open>Tool\<close>, version \<open>1.0.0\<close>, and
  an output directory that already holds \<open>Acme.Tool-1.0.0.gen.vsix\<close>. The probe finds
  \<open>Acme.Tool-1.0.0.gen01.vsix\<close> free and logs it; \<open>createOutputFilePath\<close> has already
  returned \<open>Acme.Tool-1.0.0.gen.vsix\<close>, the name of the file that exists.
\<close>

theorem createOutputFilePath_collision:
  "fs_exists example_env_taken (path_join example_env_taken ''out'' ''Acme.Tool-1.0.0.gen.vsix'')
   \<and> \<not> fs_exists example_env_taken
         (path_join example_env_taken ''out'' ''Acme.Tool-1.0.0.gen01.vsix'')
   \<and> fst (createOutputFilePath example_env_taken example_data ''out'')
       = ''Acme.Tool-1.0.0.gen.vsix''
   \<and> snd (createOutputFilePath example_env_taken example_data ''out'')
       = Some ''Acme.Tool-1.0.0.gen01.vsix''"
proof -
  have name: "gen_fileName example_data [] = ''Acme.Tool-1.0.0.gen.vsix''"
    by (simp add: gen_fileName_def example_data_def)
  have dir: "fs_exists example_env_taken
               (path_join example_env_taken ''out'' ''Acme.Tool-1.0.0.gen.vsix'')"
    "\<not> fs_exists example_env_taken
         (path_join example_env_taken ''out'' ''Acme.Tool-1.0.0.gen01.vsix'')"
    by (simp_all add: example_env_taken_def example_env_def)
  from dir show ?thesis
    by (simp add: createOutputFilePath_def Let_def name probe_logs_gen01)
qed

end
